theory Spec2Isabelle
  imports Complex_Main
begin

section \<open>Python values, strings and exceptions\<close>

text \<open>
  The topology engine of \<^verbatim>\<open>pynoddy/output.py\<close> (class \<^verbatim>\<open>NoddyTopology\<close>) is Python 2 code on
  top of the NetworkX 1.x \<^verbatim>\<open>Graph\<close> class.  Every exception the code can raise is a value
  of \<open>error\<close>; a function that may raise returns \<open>error + 'a\<close> with \<open>Inl\<close> for the exception.
\<close>

datatype error = IndexError | KeyError | ValueError | ZeroDivisionError | NetworkXError

definition ebind :: "error + 'a \<Rightarrow> ('a \<Rightarrow> error + 'b) \<Rightarrow> error + 'b" where
  "ebind m f = (case m of Inl e \<Rightarrow> Inl e | Inr x \<Rightarrow> f x)"

text \<open>The characters that \<^verbatim>\<open>str.strip\<close>, \<^verbatim>\<open>str.rstrip\<close> and \<^verbatim>\<open>int\<close> treat as white space.\<close>

definition is_space :: "char \<Rightarrow> bool" where
  "is_space c = (c = CHR '' '' \<or> c = CHR 0x09 \<or> c = CHR 0x0A \<or> c = CHR 0x0B
                 \<or> c = CHR 0x0C \<or> c = CHR 0x0D)"

definition py_lstrip :: "string \<Rightarrow> string" where
  "py_lstrip s = dropWhile is_space s"

definition py_rstrip :: "string \<Rightarrow> string" where
  "py_rstrip s = rev (dropWhile is_space (rev s))"

definition py_strip :: "string \<Rightarrow> string" where
  "py_strip s = py_lstrip (py_rstrip s)"

text \<open>\<^verbatim>\<open>s.split(sep)\<close> for a one-character separator: every occurrence of the separator
  cuts, so that two separators in a row give an empty piece, and the result is never empty.\<close>

fun py_split :: "char \<Rightarrow> string \<Rightarrow> string list" where
  "py_split sep [] = [[]]"
| "py_split sep (c # cs) =
     (if c = sep then [] # py_split sep cs
      else (case py_split sep cs of
              [] \<Rightarrow> [[c]]
            | p # ps \<Rightarrow> (c # p) # ps))"

text \<open>\<^verbatim>\<open>sep.join(xs)\<close>.\<close>

fun py_join :: "string \<Rightarrow> string list \<Rightarrow> string" where
  "py_join sep [] = []"
| "py_join sep [x] = x"
| "py_join sep (x # y # ys) = x @ sep @ py_join sep (y # ys)"

text \<open>\<^verbatim>\<open>xs[i]\<close> with Python's negative indices, and the slice \<^verbatim>\<open>xs[lo:hi]\<close> for a
  non-negative \<open>lo\<close> and a negative \<open>hi\<close>, the only form of slice the code uses.\<close>

definition py_index :: "'a list \<Rightarrow> int \<Rightarrow> error + 'a" where
  "py_index xs i =
     (if 0 \<le> i \<and> i < int (length xs) then Inr (xs ! nat i)
      else if i < 0 \<and> - int (length xs) \<le> i then Inr (xs ! nat (int (length xs) + i))
      else Inl IndexError)"

definition py_slice_to_end :: "'a list \<Rightarrow> nat \<Rightarrow> nat \<Rightarrow> 'a list" where
  "py_slice_to_end xs lo k = drop lo (take (length xs - k) xs)"

text \<open>Decimal digits.\<close>

definition digit_of :: "char \<Rightarrow> nat option" where
  "digit_of c = map_of [(CHR ''0'', 0), (CHR ''1'', 1), (CHR ''2'', 2), (CHR ''3'', 3),
      (CHR ''4'', 4), (CHR ''5'', 5), (CHR ''6'', 6), (CHR ''7'', 7), (CHR ''8'', 8),
      (CHR ''9'', 9)] c"

definition is_digit :: "char \<Rightarrow> bool" where
  "is_digit c = (digit_of c \<noteq> None)"

fun digits_value :: "nat \<Rightarrow> string \<Rightarrow> nat" where
  "digits_value acc [] = acc"
| "digits_value acc (c # cs) = digits_value (10 * acc + the (digit_of c)) cs"

text \<open>
  \<^verbatim>\<open>int(s)\<close> on a Python 2 byte string: white space around the literal is ignored, one
  sign is allowed (Python 2 also skips white space between the sign and the digits), at
  least one decimal digit is required and nothing but white space may follow the digits.
  Anything else raises \<^verbatim>\<open>ValueError\<close>.
\<close>

definition py_int :: "string \<Rightarrow> error + int" where
  "py_int s =
     (let t = py_lstrip s;
          neg = (t \<noteq> [] \<and> hd t = CHR ''-'');
          u = (if t \<noteq> [] \<and> (hd t = CHR ''-'' \<or> hd t = CHR ''+'') then py_lstrip (tl t) else t);
          ds = takeWhile is_digit u;
          rest = dropWhile is_digit u
      in if ds = [] \<or> \<not> list_all is_space rest then Inl ValueError
         else Inr (if neg then - int (digits_value 0 ds) else int (digits_value 0 ds)))"

text \<open>\<^verbatim>\<open>"%d" % n\<close>: the decimal text of an integer.\<close>

function nat_digits :: "nat \<Rightarrow> string" where
  "nat_digits n =
     (if n < 10 then [''0123456789'' ! n]
      else nat_digits (n div 10) @ [''0123456789'' ! (n mod 10)])"
  by pat_completeness auto
termination
  by (relation "measure id") auto

definition str_of_int :: "int \<Rightarrow> string" where
  "str_of_int i =
     (if i < 0 then CHR ''-'' # nat_digits (nat (- i)) else nat_digits (nat i))"

text \<open>\<^verbatim>\<open>sub in s\<close> for strings.\<close>

fun is_prefix :: "string \<Rightarrow> string \<Rightarrow> bool" where
  "is_prefix [] s = True"
| "is_prefix (p # ps) [] = False"
| "is_prefix (p # ps) (c # cs) = (p = c \<and> is_prefix ps cs)"

fun str_contains :: "string \<Rightarrow> string \<Rightarrow> bool" where
  "str_contains sub [] = (sub = [])"
| "str_contains sub (c # cs) = (is_prefix sub (c # cs) \<or> str_contains sub cs)"

section \<open>Edge classification (the loop of \<^verbatim>\<open>loadNetwork\<close>)\<close>

text \<open>
  \<^verbatim>\<open>eCode\<close> starts as the integer \<open>0\<close> and is later one character of a topology code; the
  edge type is one of five string tags, the colour a one-letter Matplotlib colour.
\<close>

datatype ecode = CodeInt int | CodeChr char

datatype etype = stratigraphic | fault | unconformity | intrusive | unknown

text \<open>The \<^verbatim>\<open>if/elif\<close> chain on \<^verbatim>\<open>int(eCode)\<close>: colour and type.\<close>

definition code_class :: "int \<Rightarrow> string \<times> etype" where
  "code_class c =
     (if c = 0 then (''k'', stratigraphic)
      else if c = 2 \<or> c = 7 \<or> c = 8 then (''r'', fault)
      else if c = 3 then (''b'', unconformity)
      else if c = 5 then (''y'', intrusive)
      else (''g'', unknown))"

text \<open>
  One pass of \<^verbatim>\<open>for i in range(0, len(topoCode1) - 1)\<close> over the remaining indices, with
  the loop state \<open>(eCode, eType, eColour)\<close>.  The body has no \<^verbatim>\<open>break\<close>: every index is
  visited.  \<^verbatim>\<open>topoCode2[i]\<close> raises \<^verbatim>\<open>IndexError\<close> when the second code is too short and
  \<^verbatim>\<open>int\<close> raises \<^verbatim>\<open>ValueError\<close> on a character that is not a digit.
\<close>

fun edge_scan :: "string \<Rightarrow> string \<Rightarrow> nat list \<Rightarrow> ecode \<times> etype \<times> string
                  \<Rightarrow> error + (ecode \<times> etype \<times> string)" where
  "edge_scan topoCode1 topoCode2 [] st = Inr st"
| "edge_scan topoCode1 topoCode2 (i # is) st =
     (if length topoCode2 \<le> i then Inl IndexError
      else if topoCode1 ! i \<noteq> topoCode2 ! i then
        ebind (py_int [topoCode2 ! i]) (\<lambda>d2.
        ebind (py_int [topoCode1 ! i]) (\<lambda>d1.
          let eCode = (if d2 > d1 then topoCode2 ! i else topoCode1 ! i) in
          ebind (py_int [eCode]) (\<lambda>c.
            edge_scan topoCode1 topoCode2 is
              (CodeChr eCode, snd (code_class c), fst (code_class c)))))
      else edge_scan topoCode1 topoCode2 is st)"

definition edge_class :: "string \<Rightarrow> string \<Rightarrow> error + (ecode \<times> etype \<times> string)" where
  "edge_class topoCode1 topoCode2 =
     edge_scan topoCode1 topoCode2 [0 ..< length topoCode1 - 1]
       (CodeInt 0, stratigraphic, ''k'')"

section \<open>Data model\<close>

text \<open>
  The dictionaries built by \<^verbatim>\<open>read_properties\<close>: one \<^verbatim>\<open>params\<close> dictionary per lithology
  (keys \<^verbatim>\<open>code\<close>, \<^verbatim>\<open>name\<close>, \<^verbatim>\<open>colour\<close>) and one per vertex (keys \<^verbatim>\<open>centroid\<close>, \<^verbatim>\<open>litho\<close>,
  \<^verbatim>\<open>topo\<close>, \<^verbatim>\<open>volume\<close>).  Python floats are the type parameter \<open>'f\<close>: the code only parses
  them and divides them by \<open>255.0\<close>, and both operations are parameters of the model.
\<close>

record 'f litho_params =
  l_code :: int
  l_name :: string
  l_colour :: "'f list"

record 'f vertex_params =
  v_centroid :: "'f list"
  v_litho :: int
  v_topo :: string
  v_volume :: int

text \<open>
  The attribute dictionary of a graph node (a key that is not set is \<open>None\<close>) and of a
  graph edge (\<^verbatim>\<open>add_edge\<close> is always called with all five keys).
\<close>

record 'f nattrs =
  lithology :: "string option"
  name :: "string option"
  colour :: "'f list option"
  centroid :: "'f list option"
  volume :: "int option"

record eattrs =
  edgeCode :: ecode
  edgeType :: etype
  e_colour :: string
  area :: int
  weight :: int

text \<open>
  \<^verbatim>\<open>networkx.Graph\<close> (NetworkX 1.x, an undirected graph without parallel edges): the node
  dictionary, and one entry per edge, kept under the pair of end points in the
  orientation of the first \<^verbatim>\<open>add_edge\<close>.
\<close>

record 'f graph =
  node :: "(string \<times> 'f nattrs) list"
  edge :: "((string \<times> string) \<times> eattrs) list"

definition empty_attrs :: "'f nattrs" where
  "empty_attrs = \<lparr>lithology = None, name = None, colour = None, centroid = None,
                   volume = None\<rparr>"

definition empty_graph :: "'f graph" where
  "empty_graph = \<lparr>node = [], edge = []\<rparr>"

section \<open>The NetworkX operations the code calls\<close>

definition nodes :: "'f graph \<Rightarrow> string list" where
  "nodes g = map fst (node g)"

definition has_node :: "'f graph \<Rightarrow> string \<Rightarrow> bool" where
  "has_node g n = (n \<in> set (nodes g))"

text \<open>\<^verbatim>\<open>G.node[n]\<close>, and the item assignment \<^verbatim>\<open>G.node[n][key] = value\<close> as an update \<open>f\<close> of
  the attribute dictionary.\<close>

definition node_attr :: "'f graph \<Rightarrow> string \<Rightarrow> error + 'f nattrs" where
  "node_attr g n = (case map_of (node g) n of None \<Rightarrow> Inl KeyError | Some a \<Rightarrow> Inr a)"

definition set_node_attr :: "'f graph \<Rightarrow> string \<Rightarrow> ('f nattrs \<Rightarrow> 'f nattrs) \<Rightarrow> 'f graph" where
  "set_node_attr g n f = g\<lparr>node := map (\<lambda>(k, a). if k = n then (k, f a) else (k, a)) (node g)\<rparr>"

text \<open>\<^verbatim>\<open>G.add_node(n, **attr)\<close>: a new node gets the attributes, a known node has its
  attribute dictionary updated.\<close>

definition add_node :: "'f graph \<Rightarrow> string \<Rightarrow> ('f nattrs \<Rightarrow> 'f nattrs) \<Rightarrow> 'f graph" where
  "add_node g n f =
     (if has_node g n then set_node_attr g n f
      else g\<lparr>node := node g @ [(n, f empty_attrs)]\<rparr>)"

text \<open>Two pairs of end points name the same undirected edge.\<close>

definition same_pair :: "string \<times> string \<Rightarrow> string \<times> string \<Rightarrow> bool" where
  "same_pair p q = ((fst p = fst q \<and> snd p = snd q) \<or> (fst p = snd q \<and> snd p = fst q))"

definition has_edge :: "'f graph \<Rightarrow> string \<Rightarrow> string \<Rightarrow> bool" where
  "has_edge g u v = list_ex (\<lambda>(k, a). same_pair k (u, v)) (edge g)"

text \<open>\<^verbatim>\<open>G.add_edge(u, v, **attr)\<close>: missing end points become nodes without attributes; an
  edge between the two end points, in either orientation, has its attributes overwritten,
  otherwise the edge is new.\<close>

definition add_edge :: "'f graph \<Rightarrow> string \<Rightarrow> string \<Rightarrow> eattrs \<Rightarrow> 'f graph" where
  "add_edge g u v a =
     (let g1 = add_node g u (\<lambda>x. x);
          g2 = add_node g1 v (\<lambda>x. x)
      in if has_edge g2 u v
         then g2\<lparr>edge := map (\<lambda>(k, b). if same_pair k (u, v) then (k, a) else (k, b)) (edge g2)\<rparr>
         else g2\<lparr>edge := edge g2 @ [((u, v), a)]\<rparr>)"

text \<open>\<^verbatim>\<open>G.remove_node(n)\<close>: the node goes with every edge that touches it; an unknown node
  raises \<^verbatim>\<open>NetworkXError\<close>.\<close>

definition remove_node :: "'f graph \<Rightarrow> string \<Rightarrow> error + 'f graph" where
  "remove_node g n =
     (if has_node g n
      then Inr (g\<lparr>node := filter (\<lambda>(k, a). k \<noteq> n) (node g),
                  edge := filter (\<lambda>(k, a). fst k \<noteq> n \<and> snd k \<noteq> n) (edge g)\<rparr>)
      else Inl NetworkXError)"

text \<open>\<^verbatim>\<open>G.edges_iter()\<close> yields every edge once; \<^verbatim>\<open>G.number_of_edges()\<close> counts them.\<close>

definition edges_iter :: "'f graph \<Rightarrow> (string \<times> string) list" where
  "edges_iter g = map fst (edge g)"

definition number_of_edges :: "'f graph \<Rightarrow> nat" where
  "number_of_edges g = length (edge g)"

text \<open>
  The invariant of a NetworkX graph in this representation: node keys are unique, no two
  entries are the same undirected edge, and the end points of every edge are nodes.
\<close>

definition ukey :: "string \<times> string \<Rightarrow> string set" where
  "ukey p = {fst p, snd p}"

definition wf_graph :: "'f graph \<Rightarrow> bool" where
  "wf_graph g =
     (distinct (nodes g) \<and> distinct (map ukey (edges_iter g))
      \<and> list_all (\<lambda>p. has_node g (fst p) \<and> has_node g (snd p)) (edges_iter g))"

text \<open>The set of undirected edges of a graph, each edge as the set of its end points.\<close>

definition edge_set :: "'f graph \<Rightarrow> string set set" where
  "edge_set g = ukey ` set (edges_iter g)"

section \<open>\<^verbatim>\<open>NoddyTopology.read_properties\<close>\<close>

definition dict_get :: "('k \<rightharpoonup> 'v) \<Rightarrow> 'k \<Rightarrow> error + 'v" where
  "dict_get d k = (case d k of None \<Rightarrow> Inl KeyError | Some v \<Rightarrow> Inr v)"

text \<open>
  The body of the loop over the lithology definitions, for one line of the \<^verbatim>\<open>.g20\<close> file.
  \<open>float\<close> is Python's \<^verbatim>\<open>float(s)\<close> and \<open>div255\<close> the division by \<open>255.0\<close>.
\<close>

definition parse_lithology ::
  "(string \<Rightarrow> error + 'f) \<Rightarrow> ('f \<Rightarrow> 'f) \<Rightarrow> string \<Rightarrow> error + 'f litho_params" where
  "parse_lithology float div255 line =
     (let l = py_split (CHR '' '') (py_strip line) in
      ebind (py_index l 0) (\<lambda>c.
      ebind (py_int c) (\<lambda>code.
      ebind (py_index l (- 3)) (\<lambda>r.
      ebind (float r) (\<lambda>fr.
      ebind (py_index l (- 2)) (\<lambda>g.
      ebind (float g) (\<lambda>fg.
      ebind (py_index l (- 1)) (\<lambda>b.
      ebind (float b) (\<lambda>fb.
        Inr \<lparr>l_code = code, l_name = py_join '' '' (py_slice_to_end l 2 3),
             l_colour = [div255 fr, div255 fg, div255 fb]\<rparr>)))))))))"

text \<open>\<^verbatim>\<open>for i in range(nevents + 3, len(lines))\<close>, over the remaining indices; \<^verbatim>\<open>lines[i]\<close> is
  Python indexing, so a negative index counts from the end.\<close>

fun lithology_loop ::
  "(string \<Rightarrow> error + 'f) \<Rightarrow> ('f \<Rightarrow> 'f) \<Rightarrow> string list \<Rightarrow> int list
     \<Rightarrow> (int \<rightharpoonup> 'f litho_params) \<Rightarrow> error + (int \<rightharpoonup> 'f litho_params)" where
  "lithology_loop float div255 lines [] props = Inr props"
| "lithology_loop float div255 lines (i # is) props =
     ebind (py_index lines i) (\<lambda>line.
     ebind (parse_lithology float div255 line) (\<lambda>params.
       lithology_loop float div255 lines is (props(l_code params \<mapsto> params))))"

definition read_lithology ::
  "(string \<Rightarrow> error + 'f) \<Rightarrow> ('f \<Rightarrow> 'f) \<Rightarrow> string list
     \<Rightarrow> error + (int \<rightharpoonup> 'f litho_params)" where
  "read_lithology float div255 lines =
     ebind (py_index lines 0) (\<lambda>first.
     ebind (py_index (py_split (CHR '' '') first) 2) (\<lambda>tok.
     ebind (py_int tok) (\<lambda>nevents.
       lithology_loop float div255 lines [nevents + 3 .. int (length lines) - 1] Map.empty)))"

text \<open>The loop over the lines of the \<^verbatim>\<open>_v.vs\<close> file.\<close>

fun vertex_loop ::
  "(string \<Rightarrow> error + 'f) \<Rightarrow> string list \<Rightarrow> (string \<rightharpoonup> 'f vertex_params)
     \<Rightarrow> error + (string \<rightharpoonup> 'f vertex_params)" where
  "vertex_loop float [] props = Inr props"
| "vertex_loop float (l # ls) props =
     (if str_contains ''PVRTX'' l then
        (let data = py_split (CHR '' '') l in
         ebind (py_index data 2) (\<lambda>x.
         ebind (float x) (\<lambda>fx.
         ebind (py_index data 3) (\<lambda>y.
         ebind (float y) (\<lambda>fy.
         ebind (py_index data 4) (\<lambda>z.
         ebind (float z) (\<lambda>fz.
         ebind (py_index data 5) (\<lambda>lc.
         ebind (py_int lc) (\<lambda>litho.
         ebind (py_index data 6) (\<lambda>topo.
         ebind (py_index data 7) (\<lambda>vc.
         ebind (py_int vc) (\<lambda>vol.
           vertex_loop float ls
             (props(str_of_int litho @ ''_'' @ topo \<mapsto>
                \<lparr>v_centroid = [fx, fy, fz], v_litho = litho, v_topo = topo,
                 v_volume = vol\<rparr>))))))))))))))
      else vertex_loop float ls props)"

text \<open>\<^verbatim>\<open>read_properties\<close> on the lines of the two files: \<^verbatim>\<open>self.lithology_properties\<close> and
  \<^verbatim>\<open>self.node_properties\<close>.\<close>

definition read_properties ::
  "(string \<Rightarrow> error + 'f) \<Rightarrow> ('f \<Rightarrow> 'f) \<Rightarrow> string list \<Rightarrow> string list
     \<Rightarrow> error + ((int \<rightharpoonup> 'f litho_params) \<times> (string \<rightharpoonup> 'f vertex_params))" where
  "read_properties float div255 g20_lines vs_lines =
     ebind (read_lithology float div255 g20_lines) (\<lambda>lithology_properties.
     ebind (vertex_loop float vs_lines Map.empty) (\<lambda>node_properties.
       Inr (lithology_properties, node_properties)))"

section \<open>\<^verbatim>\<open>NoddyTopology.loadNetwork\<close>\<close>

text \<open>
  The four statements that create one end point: \<^verbatim>\<open>add_node\<close> with \<^verbatim>\<open>lithology\<close> and
  \<^verbatim>\<open>name\<close>, then the item assignments of \<^verbatim>\<open>colour\<close>, \<^verbatim>\<open>centroid\<close> and \<^verbatim>\<open>volume\<close>.  The
  lithology is looked up under \<^verbatim>\<open>int(lithoCode)\<close>, the vertex under
  \<^verbatim>\<open>"%d_%s" % (int(lithoCode), topoCode)\<close>; a missing key raises \<^verbatim>\<open>KeyError\<close>.
\<close>

definition load_node ::
  "(int \<rightharpoonup> 'f litho_params) \<Rightarrow> (string \<rightharpoonup> 'f vertex_params) \<Rightarrow> 'f graph
     \<Rightarrow> string \<Rightarrow> string \<Rightarrow> string \<Rightarrow> error + 'f graph" where
  "load_node lithology_properties node_properties g n lithoCode topoCode =
     ebind (py_int lithoCode) (\<lambda>lc.
     ebind (dict_get lithology_properties lc) (\<lambda>lit.
       let g1 = add_node g n (\<lambda>a. a\<lparr>lithology := Some lithoCode, name := Some (l_name lit)\<rparr>);
           g2 = set_node_attr g1 n (\<lambda>a. a\<lparr>colour := Some (l_colour lit)\<rparr>)
       in ebind (dict_get node_properties (str_of_int lc @ ''_'' @ topoCode)) (\<lambda>v.
            Inr (set_node_attr
                   (set_node_attr g2 n (\<lambda>a. a\<lparr>centroid := Some (v_centroid v)\<rparr>))
                   n (\<lambda>a. a\<lparr>volume := Some (v_volume v)\<rparr>)))))"

text \<open>The body of \<^verbatim>\<open>for l in lines\<close>, for one line of the \<^verbatim>\<open>.g23\<close> file.\<close>

definition load_line ::
  "(int \<rightharpoonup> 'f litho_params) \<Rightarrow> (string \<rightharpoonup> 'f vertex_params) \<Rightarrow> 'f graph \<Rightarrow> string
     \<Rightarrow> error + 'f graph" where
  "load_line lithology_properties node_properties g line =
     (let data = py_split (CHR 0x09) (py_rstrip line) in
      ebind (py_index data 0) (\<lambda>n1.
      ebind (py_index (py_split (CHR ''_'') n1) 1) (\<lambda>topoCode1.
      ebind (py_index data 1) (\<lambda>n2.
      ebind (py_index (py_split (CHR ''_'') n2) 1) (\<lambda>topoCode2.
      ebind (py_index (py_split (CHR ''_'') n1) 0) (\<lambda>lithoCode1.
      ebind (py_index (py_split (CHR ''_'') n2) 0) (\<lambda>lithoCode2.
      ebind (py_index data (- 1)) (\<lambda>c.
      ebind (py_int c) (\<lambda>count.
      ebind (edge_class topoCode1 topoCode2) (\<lambda>(eCode, eType, eColour).
      ebind (load_node lithology_properties node_properties g n1 lithoCode1 topoCode1) (\<lambda>g1.
      ebind (load_node lithology_properties node_properties g1 n2 lithoCode2 topoCode2) (\<lambda>g2.
        Inr (add_edge g2 n1 n2
               \<lparr>edgeCode = eCode, edgeType = eType, e_colour = eColour, area = count,
                weight = 1\<rparr>)))))))))))))"

fun load_lines ::
  "(int \<rightharpoonup> 'f litho_params) \<Rightarrow> (string \<rightharpoonup> 'f vertex_params) \<Rightarrow> string list \<Rightarrow> 'f graph
     \<Rightarrow> error + 'f graph" where
  "load_lines lithology_properties node_properties [] g = Inr g"
| "load_lines lithology_properties node_properties (l # ls) g =
     ebind (load_line lithology_properties node_properties g l)
       (\<lambda>g'. load_lines lithology_properties node_properties ls g')"

text \<open>\<^verbatim>\<open>loadNetwork\<close> on the lines of the three files of a model.\<close>

definition loadNetwork ::
  "(string \<Rightarrow> error + 'f) \<Rightarrow> ('f \<Rightarrow> 'f) \<Rightarrow> string list \<Rightarrow> string list \<Rightarrow> string list
     \<Rightarrow> error + 'f graph" where
  "loadNetwork float div255 g20_lines vs_lines g23_lines =
     ebind (read_properties float div255 g20_lines vs_lines)
       (\<lambda>(lithology_properties, node_properties).
          load_lines lithology_properties node_properties g23_lines empty_graph)"

section \<open>Pruning and comparison\<close>

text \<open>\<^verbatim>\<open>filter_node_volumes\<close>: the loop runs over \<^verbatim>\<open>self.graph.nodes()\<close>, which in
  NetworkX 1.x is a list made before the first removal.\<close>

fun filter_loop :: "int \<Rightarrow> string list \<Rightarrow> 'f graph \<Rightarrow> nat \<Rightarrow> error + ('f graph \<times> nat)" where
  "filter_loop min_volume [] g count = Inr (g, count)"
| "filter_loop min_volume (n # ns) g count =
     ebind (node_attr g n) (\<lambda>a.
       case volume a of
         None \<Rightarrow> Inl KeyError
       | Some v \<Rightarrow>
           if v < min_volume
           then ebind (remove_node g n) (\<lambda>g'. filter_loop min_volume ns g' (count + 1))
           else filter_loop min_volume ns g count)"

definition filter_node_volumes :: "'f graph \<Rightarrow> int \<Rightarrow> error + ('f graph \<times> nat)" where
  "filter_node_volumes g min_volume = filter_loop min_volume (nodes g) g 0"

text \<open>\<^verbatim>\<open>jaccard_coefficient\<close>: the loop over \<^verbatim>\<open>self.graph.edges_iter()\<close> with the two
  counters (\<open>union_n\<close> is the variable \<^verbatim>\<open>union\<close>), then \<^verbatim>\<open>intersection / float(union)\<close>,
  which raises \<^verbatim>\<open>ZeroDivisionError\<close> when \<^verbatim>\<open>union\<close> is \<open>0\<close>.  The quotient of the two counters
  is kept exact.\<close>

fun jaccard_loop :: "'f graph \<Rightarrow> (string \<times> string) list \<Rightarrow> nat \<Rightarrow> nat \<Rightarrow> nat \<times> nat" where
  "jaccard_loop G2 [] intersection union_n = (intersection, union_n)"
| "jaccard_loop G2 (e # es) intersection union_n =
     (if has_edge G2 (fst e) (snd e) then jaccard_loop G2 es (intersection + 1) union_n
      else jaccard_loop G2 es intersection (union_n + 1))"

definition jaccard_coefficient :: "'f graph \<Rightarrow> 'f graph \<Rightarrow> error + rat" where
  "jaccard_coefficient G G2 =
     (case jaccard_loop G2 (edges_iter G) 0 (number_of_edges G) of
        (intersection, union_n) \<Rightarrow>
          if union_n = 0 then Inl ZeroDivisionError
          else Inr (of_nat intersection / of_nat union_n))"

text \<open>\<^verbatim>\<open>is_unique\<close> and \<^verbatim>\<open>find_matching\<close>: the loop over \<^verbatim>\<open>known\<close>.  The last argument and
  the second component of the result count the calls of \<^verbatim>\<open>jaccard_coefficient\<close>.\<close>

fun is_unique_loop :: "'f graph \<Rightarrow> 'f graph list \<Rightarrow> nat \<Rightarrow> (error + bool) \<times> nat" where
  "is_unique_loop G [] calls = (Inr True, calls)"
| "is_unique_loop G (g2 # known) calls =
     (case jaccard_coefficient G g2 of
        Inl e \<Rightarrow> (Inl e, calls + 1)
      | Inr j \<Rightarrow> if j = 1 then (Inr False, calls + 1)
                 else is_unique_loop G known (calls + 1))"

definition is_unique :: "'f graph \<Rightarrow> 'f graph list \<Rightarrow> error + bool" where
  "is_unique G known = fst (is_unique_loop G known 0)"

fun find_matching_loop ::
  "'f graph \<Rightarrow> 'f graph list \<Rightarrow> nat \<Rightarrow> (error + 'f graph option) \<times> nat" where
  "find_matching_loop G [] calls = (Inr None, calls)"
| "find_matching_loop G (g1 # known) calls =
     (case jaccard_coefficient G g1 of
        Inl e \<Rightarrow> (Inl e, calls + 1)
      | Inr j \<Rightarrow> if j = 1 then (Inr (Some g1), calls + 1)
                 else find_matching_loop G known (calls + 1))"

definition find_matching :: "'f graph \<Rightarrow> 'f graph list \<Rightarrow> error + 'f graph option" where
  "find_matching G known = fst (find_matching_loop G known 0)"

text \<open>\<^verbatim>\<open>calculate_unique_topologies\<close>: the loop over \<^verbatim>\<open>topology_list\<close> with the list
  \<^verbatim>\<open>uTopo\<close> and the integers written to the output file, one per line; \<open>output\<close> says
  whether the keyword \<^verbatim>\<open>output\<close> was given.\<close>

fun unique_loop ::
  "bool \<Rightarrow> 'f graph list \<Rightarrow> 'f graph list \<Rightarrow> nat list \<Rightarrow> error + ('f graph list \<times> nat list)" where
  "unique_loop output [] uTopo f = Inr (uTopo, f)"
| "unique_loop output (t # ts) uTopo f =
     ebind (is_unique t uTopo) (\<lambda>u.
       let uTopo' = (if u then uTopo @ [t] else uTopo);
           f' = (if output then f @ [length uTopo'] else f)
       in unique_loop output ts uTopo' f')"

definition calculate_unique_topologies ::
  "'f graph list \<Rightarrow> bool \<Rightarrow> error + ('f graph list \<times> nat list)" where
  "calculate_unique_topologies topology_list output = unique_loop output topology_list [] []"

text \<open>\<^verbatim>\<open>calculate_overlap\<close>.\<close>

fun overlap_loop :: "'f graph \<Rightarrow> (string \<times> string) list \<Rightarrow> nat \<Rightarrow> nat" where
  "overlap_loop G2 [] similarity = similarity"
| "overlap_loop G2 (e # es) similarity =
     (if has_edge G2 (fst e) (snd e) then overlap_loop G2 es (similarity + 1)
      else overlap_loop G2 es similarity)"

definition calculate_overlap :: "'f graph \<Rightarrow> 'f graph \<Rightarrow> nat" where
  "calculate_overlap G G2 = overlap_loop G2 (edges_iter G) 0"

section \<open>The wording of the specification\<close>

text \<open>
  The definitions of this section follow the sentences of the specification, not the
  code; they are what the code is compared with.

  \<^bold>\<open>First difference.\<close>  Scan the two topology codes without their final characters
  position by position; at the first position where the characters differ the larger
  digit is the classification digit and the scan stops; without a difference the digit
  is \<open>0\<close>.
\<close>

fun spec_first_difference :: "string \<Rightarrow> string \<Rightarrow> nat" where
  "spec_first_difference (a # as) (b # bs) =
     (if a \<noteq> b then max (the (digit_of a)) (the (digit_of b))
      else spec_first_difference as bs)"
| "spec_first_difference as bs = 0"

definition spec_edge_digit :: "string \<Rightarrow> string \<Rightarrow> nat" where
  "spec_edge_digit topoCode1 topoCode2 =
     spec_first_difference (butlast topoCode1) (butlast topoCode2)"

text \<open>\<^bold>\<open>White-space-delimited tokens\<close> of a line: the maximal runs of characters that are
  not white space.\<close>

fun ws_tokens_from :: "string \<Rightarrow> string \<Rightarrow> string list" where
  "ws_tokens_from cur [] = (if cur = [] then [] else [cur])"
| "ws_tokens_from cur (c # cs) =
     (if is_space c then (if cur = [] then ws_tokens_from [] cs else cur # ws_tokens_from [] cs)
      else ws_tokens_from (cur @ [c]) cs)"

definition ws_tokens :: "string \<Rightarrow> string list" where
  "ws_tokens line = ws_tokens_from [] line"

text \<open>The name of a lithology definition line: the join of the white-space-delimited
  tokens from index 2 up to, and excluding, the last three.\<close>

definition spec_lithology_name :: "string \<Rightarrow> string" where
  "spec_lithology_name line = py_join '' '' (py_slice_to_end (ws_tokens line) 2 3)"

text \<open>\<^bold>\<open>The set-similarity ratio\<close> \<open>|edges(A) \<inter> edges(B)| / |edges(A) \<union> edges(B)|\<close>.\<close>

definition spec_jaccard :: "'f graph \<Rightarrow> 'f graph \<Rightarrow> rat" where
  "spec_jaccard A B =
     of_nat (card (edge_set A \<inter> edge_set B)) / of_nat (card (edge_set A \<union> edge_set B))"

section \<open>Example models\<close>

text \<open>
  An instance of the two float operations for the examples: exact rationals, with
  \<^verbatim>\<open>float\<close> restricted to integer literals.
\<close>

definition ex_float :: "string \<Rightarrow> error + rat" where
  "ex_float s = ebind (py_int s) (\<lambda>i. Inr (of_int i))"

definition ex_div255 :: "rat \<Rightarrow> rat" where
  "ex_div255 x = x / 255"

text \<open>The three files of a small model: two lithologies, three vertices, two contacts.\<close>

definition ex_g20 :: "string list" where
  "ex_g20 = [''NUM EVENTS 1'', ''a'', ''b'', ''c'', ''1 1 Upper Sand 255 0 0'',
             ''2 1 Dyke 0 51 255'']"

definition ex_vs :: "string list" where
  "ex_vs = [''PVRTX 1 10 20 30 1 000a 100'', ''PVRTX 2 10 20 30 1 001a 5'', ''SEG 1 2'',
            ''PVRTX 3 1 2 3 2 051a 60'']"

definition ex_g23 :: "string list" where
  "ex_g23 = [''1_000a'' @ [CHR 0x09] @ ''1_001a'' @ [CHR 0x09] @ ''10'' @ [CHR 0x0A],
             ''1_001a'' @ [CHR 0x09] @ ''2_051a'' @ [CHR 0x09] @ ''4'' @ [CHR 0x0A]]"

text \<open>The graph of the model and the graph of the model with the first contact only.\<close>

definition topo_B :: "rat graph" where
  "topo_B =
     \<lparr>node =
        [(''1_000a'', \<lparr>lithology = Some ''1'', name = Some ''Upper Sand'',
            colour = Some [1, 0, 0], centroid = Some [10, 20, 30], volume = Some 100\<rparr>),
         (''1_001a'', \<lparr>lithology = Some ''1'', name = Some ''Upper Sand'',
            colour = Some [1, 0, 0], centroid = Some [10, 20, 30], volume = Some 5\<rparr>),
         (''2_051a'', \<lparr>lithology = Some ''2'', name = Some ''Dyke'',
            colour = Some [0, 1 / 5, 1], centroid = Some [1, 2, 3], volume = Some 60\<rparr>)],
      edge =
        [((''1_000a'', ''1_001a''), \<lparr>edgeCode = CodeChr CHR ''1'', edgeType = unknown,
            e_colour = ''g'', area = 10, weight = 1\<rparr>),
         ((''1_001a'', ''2_051a''), \<lparr>edgeCode = CodeChr CHR ''5'', edgeType = intrusive,
            e_colour = ''y'', area = 4, weight = 1\<rparr>)]\<rparr>"

definition topo_A :: "rat graph" where
  "topo_A =
     \<lparr>node =
        [(''1_000a'', \<lparr>lithology = Some ''1'', name = Some ''Upper Sand'',
            colour = Some [1, 0, 0], centroid = Some [10, 20, 30], volume = Some 100\<rparr>),
         (''1_001a'', \<lparr>lithology = Some ''1'', name = Some ''Upper Sand'',
            colour = Some [1, 0, 0], centroid = Some [10, 20, 30], volume = Some 5\<rparr>)],
      edge =
        [((''1_000a'', ''1_001a''), \<lparr>edgeCode = CodeChr CHR ''1'', edgeType = unknown,
            e_colour = ''g'', area = 10, weight = 1\<rparr>)]\<rparr>"

text \<open>The model with a third line in the \<^verbatim>\<open>.g23\<close> file that repeats the first contact, the
  end points exchanged, and its graph.\<close>

definition ex_g23_repeat :: "string list" where
  "ex_g23_repeat =
     ex_g23 @ [''1_001a'' @ [CHR 0x09] @ ''1_000a'' @ [CHR 0x09] @ ''7'' @ [CHR 0x0A]]"

definition topo_R :: "rat graph" where
  "topo_R =
     topo_B\<lparr>edge :=
        [((''1_000a'', ''1_001a''), \<lparr>edgeCode = CodeChr CHR ''1'', edgeType = unknown,
            e_colour = ''g'', area = 7, weight = 1\<rparr>),
         ((''1_001a'', ''2_051a''), \<lparr>edgeCode = CodeChr CHR ''5'', edgeType = intrusive,
            e_colour = ''y'', area = 4, weight = 1\<rparr>)]\<rparr>"

text \<open>A \<^verbatim>\<open>.g20\<close> file whose only lithology definition has two spaces before the name.\<close>

definition ex_g20_spaced :: "string list" where
  "ex_g20_spaced = [''NUM EVENTS 1'', ''a'', ''b'', ''c'', ''1 1  Upper Sand 255 0 0'']"

text \<open>A model with one contact between two regions whose topology codes differ at two
  positions, its graph, and an edge list whose second topology code is too short.\<close>

definition ex_vs_multi :: "string list" where
  "ex_vs_multi = [''PVRTX 1 0 0 0 1 23a 10'', ''PVRTX 2 0 0 0 1 35a 20'']"

definition ex_g23_multi :: "string list" where
  "ex_g23_multi = [''1_23a'' @ [CHR 0x09] @ ''1_35a'' @ [CHR 0x09] @ ''3'' @ [CHR 0x0A]]"

definition ex_g23_short :: "string list" where
  "ex_g23_short = [''1_23a'' @ [CHR 0x09] @ ''1_3'' @ [CHR 0x09] @ ''3'' @ [CHR 0x0A]]"

definition topo_M :: "rat graph" where
  "topo_M =
     \<lparr>node =
        [(''1_23a'', \<lparr>lithology = Some ''1'', name = Some ''Upper Sand'',
            colour = Some [1, 0, 0], centroid = Some [0, 0, 0], volume = Some 10\<rparr>),
         (''1_35a'', \<lparr>lithology = Some ''1'', name = Some ''Upper Sand'',
            colour = Some [1, 0, 0], centroid = Some [0, 0, 0], volume = Some 20\<rparr>)],
      edge =
        [((''1_23a'', ''1_35a''), \<lparr>edgeCode = CodeChr CHR ''5'', edgeType = intrusive,
            e_colour = ''y'', area = 3, weight = 1\<rparr>)]\<rparr>"

section \<open>Auxiliary notions for the proofs\<close>


text \<open>The loop state after a position where the two codes differ.\<close>

definition scan_step :: "string \<Rightarrow> string \<Rightarrow> nat \<Rightarrow> ecode \<times> etype \<times> string" where
  "scan_step t1 t2 j =
     (let d1 = the (digit_of (t1 ! j)); d2 = the (digit_of (t2 ! j))
      in (CodeChr (if d2 > d1 then t2 ! j else t1 ! j),
          snd (code_class (int (max d1 d2))), fst (code_class (int (max d1 d2)))))"

text \<open>The nodes below the threshold of \<^verbatim>\<open>filter_node_volumes\<close>, and their names.\<close>

definition small :: "int \<Rightarrow> string \<times> 'f nattrs \<Rightarrow> bool" where
  "small t na = (the (volume (snd na)) < t)"

definition small_names :: "int \<Rightarrow> (string \<times> 'f nattrs) list \<Rightarrow> string set" where
  "small_names t nas = fst ` set (filter (small t) nas)"

text \<open>
  A line of the \<^verbatim>\<open>.g20\<close> file read as the lithology definition \<open>p\<close>: the fields are the
  pieces of the stripped line between single spaces; the first field is the code, the
  fields from index 2 up to the last three, joined by single spaces, are the name, and
  the last three fields, as floats divided by \<open>255.0\<close>, are the colour.
\<close>

definition lithology_entry ::
  "(string \<Rightarrow> error + 'f) \<Rightarrow> ('f \<Rightarrow> 'f) \<Rightarrow> string \<Rightarrow> 'f litho_params \<Rightarrow> bool" where
  "lithology_entry float div255 line p =
     (let l = py_split (CHR '' '') (py_strip line); n = length l
      in 3 \<le> n \<and> py_int (l ! 0) = Inr (l_code p)
         \<and> l_name p = py_join '' '' (drop 2 (take (n - 3) l))
         \<and> (\<exists>r g b. float (l ! (n - 3)) = Inr r \<and> float (l ! (n - 2)) = Inr g
                \<and> float (l ! (n - 1)) = Inr b
                \<and> l_colour p = [div255 r, div255 g, div255 b]))"

text \<open>The tab-separated fields of a line of the \<^verbatim>\<open>.g23\<close> file, the two node identifiers
  of the line, the attributes of the edge between two nodes (\<^verbatim>\<open>G.get_edge_data(u, v)\<close>),
  and the graphs whose nodes all carry a volume.\<close>

definition g23_fields :: "string \<Rightarrow> string list" where
  "g23_fields line = py_split (CHR 0x09) (py_rstrip line)"

definition g23_pair :: "string \<Rightarrow> string \<times> string" where
  "g23_pair line = (g23_fields line ! 0, g23_fields line ! 1)"

definition edge_data :: "'f graph \<Rightarrow> string \<Rightarrow> string \<Rightarrow> eattrs option" where
  "edge_data g u v = map_option snd (find (\<lambda>(k, a). same_pair k (u, v)) (edge g))"

definition has_volumes :: "'f graph \<Rightarrow> bool" where
  "has_volumes g = list_all (\<lambda>na. volume (snd na) \<noteq> None) (node g)"

text \<open>The two topology codes of a line of the \<^verbatim>\<open>.g23\<close> file, and the pairs of codes the
  classification loop can compare: the second code reaches as far as the first without
  its final character, and characters that differ are digits.\<close>

definition g23_topo :: "string \<Rightarrow> string \<times> string" where
  "g23_topo line =
     (py_split (CHR ''_'') (g23_fields line ! 0) ! 1, py_split (CHR ''_'') (g23_fields line ! 1) ! 1)"

definition codes_comparable :: "string \<Rightarrow> string \<Rightarrow> bool" where
  "codes_comparable topoCode1 topoCode2 =
     (length topoCode1 - 1 \<le> length topoCode2
      \<and> (\<forall>k < length topoCode1 - 1. topoCode1 ! k \<noteq> topoCode2 ! k
            \<longrightarrow> is_digit (topoCode1 ! k) \<and> is_digit (topoCode2 ! k)))"

section \<open>The example models are graphs the code builds\<close>

lemma loadNetwork_topo_B: "loadNetwork ex_float ex_div255 ex_g20 ex_vs ex_g23 = Inr topo_B"
  by code_simp

lemma loadNetwork_topo_A:
  "loadNetwork ex_float ex_div255 ex_g20 ex_vs (take 1 ex_g23) = Inr topo_A"
  by code_simp

lemma loadNetwork_topo_R:
  "loadNetwork ex_float ex_div255 ex_g20 ex_vs ex_g23_repeat = Inr topo_R"
  by code_simp

lemma loadNetwork_topo_M:
  "loadNetwork ex_float ex_div255 ex_g20 ex_vs_multi ex_g23_multi = Inr topo_M"
  by code_simp

lemma loadNetwork_empty: "loadNetwork ex_float ex_div255 ex_g20 ex_vs [] = Inr empty_graph"
  by code_simp

lemma wf_examples: "wf_graph topo_A" "wf_graph topo_B" "wf_graph (empty_graph :: rat graph)"
  by code_simp+

section \<open>Counting shared edges\<close>

lemma jaccard_loop_eq:
  "jaccard_loop G2 es i u =
     (i + length (filter (\<lambda>e. has_edge G2 (fst e) (snd e)) es),
      u + length (filter (\<lambda>e. \<not> has_edge G2 (fst e) (snd e)) es))"
  by (induction es arbitrary: i u) auto

lemma overlap_loop_eq:
  "overlap_loop G2 es s = s + length (filter (\<lambda>e. has_edge G2 (fst e) (snd e)) es)"
  by (induction es arbitrary: s) auto

lemma same_pair_ukey: "same_pair p q \<longleftrightarrow> ukey p = ukey q"
  by (auto simp: same_pair_def ukey_def doubleton_eq_iff)

lemma has_edge_edge_set: "has_edge g u v \<longleftrightarrow> ukey (u, v) \<in> edge_set g"
proof -
  have "has_edge g u v \<longleftrightarrow> (\<exists>x \<in> set (edge g). ukey (fst x) = ukey (u, v))"
    by (simp add: has_edge_def list_ex_iff same_pair_ukey case_prod_beta)
  also have "\<dots> \<longleftrightarrow> ukey (u, v) \<in> edge_set g"
    by (auto simp: edge_set_def edges_iter_def image_iff)
  finally show ?thesis .
qed

lemma has_edge_own: "e \<in> set (edges_iter G) \<Longrightarrow> has_edge G (fst e) (snd e)"
  by (simp add: has_edge_edge_set edge_set_def)

lemma jaccard_coefficient_eq:
  "jaccard_coefficient G G2 =
     (if number_of_edges G = 0 then Inl ZeroDivisionError
      else Inr (of_nat (calculate_overlap G G2)
                / of_nat (number_of_edges G + (number_of_edges G - calculate_overlap G G2))))"
proof -
  let ?P = "\<lambda>e. has_edge G2 (fst e) (snd e)"
  let ?a = "length (filter ?P (edges_iter G))"
  let ?b = "length (filter (\<lambda>e. \<not> ?P e) (edges_iter G))"
  have len: "?a + ?b = number_of_edges G"
    using sum_length_filter_compl [of ?P "edges_iter G"]
    by (simp add: number_of_edges_def edges_iter_def)
  have ov: "calculate_overlap G G2 = ?a"
    by (simp add: calculate_overlap_def overlap_loop_eq)
  have b: "?b = number_of_edges G - ?a"
    using len by linarith
  have loop: "jaccard_loop G2 (edges_iter G) 0 (number_of_edges G)
        = (?a, number_of_edges G + (number_of_edges G - ?a))"
    unfolding jaccard_loop_eq b [symmetric] by simp
  show ?thesis
    unfolding jaccard_coefficient_def loop ov by simp
qed


lemma calculate_overlap_self: "calculate_overlap G G = number_of_edges G"
proof -
  have "filter (\<lambda>e. has_edge G (fst e) (snd e)) (edges_iter G) = edges_iter G"
    by (rule filter_True) (simp add: has_edge_own)
  then show ?thesis
    by (simp add: calculate_overlap_def overlap_loop_eq number_of_edges_def edges_iter_def)
qed

lemma calculate_overlap_card:
  assumes "distinct (map ukey (edges_iter A))"
  shows "calculate_overlap A B = card (edge_set A \<inter> edge_set B)"
proof -
  have "filter (\<lambda>e. has_edge B (fst e) (snd e)) (edges_iter A)
        = filter ((\<lambda>k. k \<in> edge_set B) \<circ> ukey) (edges_iter A)"
    by (rule filter_cong) (auto simp: has_edge_edge_set)
  then have "calculate_overlap A B = length (filter (\<lambda>k. k \<in> edge_set B) (map ukey (edges_iter A)))"
    by (simp add: calculate_overlap_def overlap_loop_eq filter_map)
  also have "\<dots> = card (set (filter (\<lambda>k. k \<in> edge_set B) (map ukey (edges_iter A))))"
    by (rule distinct_card [symmetric]) (rule distinct_filter [OF assms])
  also have "set (filter (\<lambda>k. k \<in> edge_set B) (map ukey (edges_iter A))) = edge_set A \<inter> edge_set B"
    by (auto simp: edge_set_def)
  finally show ?thesis .
qed





section \<open>Comparison against an empty list\<close>

text \<open>
  \<^bold>\<open>C10.\<close>  For every candidate graph, \<^verbatim>\<open>is_unique\<close> on an empty list of known graphs
  returns \<^verbatim>\<open>True\<close> and \<^verbatim>\<open>find_matching\<close> on an empty list returns \<^verbatim>\<open>None\<close>; in both cases
  the number of calls of \<^verbatim>\<open>jaccard_coefficient\<close> is zero.
\<close>

theorem empty_known_no_comparison:
  "is_unique G [] = Inr True \<and> find_matching G [] = Inr None
   \<and> is_unique_loop G [] 0 = (Inr True, 0) \<and> find_matching_loop G [] 0 = (Inr None, 0)"
  by (simp add: is_unique_def find_matching_def)

section \<open>The similarity ratio\<close>

text \<open>
  \<^bold>\<open>C2.\<close>  The docstring of \<^verbatim>\<open>jaccard_coefficient\<close> promises the ratio between the
  intersection and the union of the two edge sets.  On the two example graphs, where the
  first graph is not empty and its only edge is one of the two edges of the second, the
  code returns \<open>1\<close>, although the edge sets differ and the ratio is \<open>1/2\<close>: the counter
  \<^verbatim>\<open>union\<close> starts at the number of edges of the first graph and never sees the edges
  that only the second graph has.
\<close>

theorem jaccard_coefficient_misses_edges_of_G2:
  "number_of_edges topo_A = 1 \<and> jaccard_coefficient topo_A topo_B = Inr 1
   \<and> spec_jaccard topo_A topo_B = 1 / 2 \<and> edge_set topo_A \<noteq> edge_set topo_B"
  by code_simp

section \<open>Symmetry of the overlap\<close>

text \<open>
  \<^bold>\<open>C6.\<close>  For all graphs \<open>A\<close> and \<open>B\<close>, \<^verbatim>\<open>calculate_overlap\<close> of \<open>A\<close> and \<open>B\<close> equals
  \<^verbatim>\<open>calculate_overlap\<close> of \<open>B\<close> and \<open>A\<close>: each is the number of unordered pairs of node
  identifiers that carry an edge in both graphs.
\<close>

theorem calculate_overlap_symmetric:
  assumes "wf_graph A" and "wf_graph B"
  shows "calculate_overlap A B = calculate_overlap B A
         \<and> calculate_overlap A B = card (edge_set A \<inter> edge_set B)"
  using assms by (simp add: wf_graph_def calculate_overlap_card Int_commute)

theorem calculate_overlap_symmetric_witness:
  "wf_graph topo_A \<and> wf_graph topo_B
   \<and> calculate_overlap topo_A topo_B = calculate_overlap topo_B topo_A
   \<and> calculate_overlap topo_A topo_B = card (edge_set topo_A \<inter> edge_set topo_B)
   \<and> calculate_overlap topo_A topo_B = 1"
proof -
  have a: "wf_graph topo_A" and b: "wf_graph topo_B"
    by (rule wf_examples)+
  have "calculate_overlap topo_A topo_B = 1"
    by code_simp
  with a b calculate_overlap_symmetric [OF a b] show ?thesis
    by simp
qed

section \<open>A graph compared with itself\<close>

text \<open>
  \<^bold>\<open>C7\<close>, as the code has it.  For every graph \<open>G\<close> with at least one edge,
  \<^verbatim>\<open>jaccard_coefficient\<close> of \<open>G\<close> and \<open>G\<close> returns exactly \<open>1\<close>; for a graph without edges
  the division by \<^verbatim>\<open>float(union)\<close> raises \<^verbatim>\<open>ZeroDivisionError\<close>.
\<close>

theorem jaccard_coefficient_self:
  "jaccard_coefficient G G = (if number_of_edges G = 0 then Inl ZeroDivisionError else Inr 1)"
  by (simp add: jaccard_coefficient_eq calculate_overlap_self)

theorem jaccard_coefficient_self_witness:
  "number_of_edges topo_B \<noteq> 0 \<and> jaccard_coefficient topo_B topo_B = Inr 1"
proof -
  have h: "number_of_edges topo_B \<noteq> 0"
    by code_simp
  with jaccard_coefficient_self [of topo_B] show ?thesis
    by simp
qed

text \<open>The claim as stated fails on the graph of a model without contacts.\<close>

theorem jaccard_coefficient_self_empty:
  "jaccard_coefficient (empty_graph :: rat graph) empty_graph \<noteq> Inr 1"
  by code_simp

section \<open>When a comparison fails\<close>






section \<open>Reducing an ensemble\<close>










text \<open>The value of \<^verbatim>\<open>jaccard_coefficient\<close> on two graphs of the returned list is a
  different matter: by the defect of C2 it is \<open>1\<close> for the first and the second graph of
  this returned list, whose edge sets differ.\<close>

lemma unique_topologies_and_jaccard_coefficient:
  "calculate_unique_topologies [topo_A, topo_B] True = Inr ([topo_A, topo_B], [1, 2])
   \<and> jaccard_coefficient topo_A topo_B = Inr 1"
  by code_simp

section \<open>Edge classification\<close>

lemma is_digit_cases:
  assumes "is_digit c"
  shows "c \<in> set ''0123456789''"
  using assms by (auto simp: is_digit_def digit_of_def split: if_splits)

lemma py_int_digit:
  assumes "is_digit c"
  shows "py_int [c] = Inr (int (the (digit_of c)))"
proof -
  from is_digit_cases [OF assms]
  consider "c = CHR ''0''" | "c = CHR ''1''" | "c = CHR ''2''" | "c = CHR ''3''"
    | "c = CHR ''4''" | "c = CHR ''5''" | "c = CHR ''6''" | "c = CHR ''7''"
    | "c = CHR ''8''" | "c = CHR ''9''"
    by auto
  then show ?thesis
    by cases (simp_all add: py_int_def py_lstrip_def is_space_def is_digit_def digit_of_def)
qed

lemma edge_scan_equal:
  "\<forall>i \<in> set is. i < length t2 \<and> t1 ! i = t2 ! i \<Longrightarrow> edge_scan t1 t2 is st = Inr st"
  by (induction "is" arbitrary: st) auto

lemma edge_scan_differ:
  assumes "j < length t2" and "t1 ! j \<noteq> t2 ! j" and "is_digit (t1 ! j)" and "is_digit (t2 ! j)"
  shows "edge_scan t1 t2 (j # js) st = edge_scan t1 t2 js (scan_step t1 t2 j)"
  using assms by (auto simp: py_int_digit ebind_def scan_step_def Let_def max_def)

lemma edge_scan_total:
  "\<forall>i \<in> set is. i < length t2 \<and> (t1 ! i \<noteq> t2 ! i \<longrightarrow> is_digit (t1 ! i) \<and> is_digit (t2 ! i))
     \<Longrightarrow> \<exists>st'. edge_scan t1 t2 is st = Inr st'"
proof (induction "is" arbitrary: st)
  case Nil
  show ?case by (rule exI [of _ st]) simp
next
  case (Cons i "is")
  from Cons.prems have rest: "\<forall>i \<in> set is. i < length t2
      \<and> (t1 ! i \<noteq> t2 ! i \<longrightarrow> is_digit (t1 ! i) \<and> is_digit (t2 ! i))"
    by simp
  show ?case
  proof (cases "t1 ! i = t2 ! i")
    case True
    with Cons.prems have "edge_scan t1 t2 (i # is) st = edge_scan t1 t2 is st"
      by simp
    with Cons.IH [OF rest, of st] show ?thesis
      by (simp only:)
  next
    case False
    with Cons.prems have "edge_scan t1 t2 (i # is) st = edge_scan t1 t2 is (scan_step t1 t2 i)"
      by (intro edge_scan_differ) auto
    with Cons.IH [OF rest, of "scan_step t1 t2 i"] show ?thesis
      by (simp only:)
  qed
qed

lemma edge_scan_append:
  "edge_scan t1 t2 (xs @ ys) st = ebind (edge_scan t1 t2 xs st) (\<lambda>st'. edge_scan t1 t2 ys st')"
  by (induction xs arbitrary: st) (auto simp: ebind_def Let_def split: sum.splits)

lemma edge_scan_last_difference:
  assumes ok: "\<forall>i \<in> set xs. i < length t2
                  \<and> (t1 ! i \<noteq> t2 ! i \<longrightarrow> is_digit (t1 ! i) \<and> is_digit (t2 ! i))"
    and j: "j < length t2" "t1 ! j \<noteq> t2 ! j" "is_digit (t1 ! j)" "is_digit (t2 ! j)"
    and eq: "\<forall>i \<in> set ys. i < length t2 \<and> t1 ! i = t2 ! i"
  shows "edge_scan t1 t2 (xs @ j # ys) st = Inr (scan_step t1 t2 j)"
proof -
  from edge_scan_total [OF ok] obtain st' where "edge_scan t1 t2 xs st = Inr st'"
    by blast
  then have "edge_scan t1 t2 (xs @ j # ys) st = edge_scan t1 t2 (j # ys) st'"
    by (simp add: edge_scan_append ebind_def)
  also have "\<dots> = edge_scan t1 t2 ys (scan_step t1 t2 j)"
    using j by (rule edge_scan_differ)
  also have "\<dots> = Inr (scan_step t1 t2 j)"
    using eq by (rule edge_scan_equal)
  finally show ?thesis .
qed

text \<open>The result of the classification loop on two codes it can compare: without a
  difference the initial state, otherwise the state set at the last position where the
  codes differ.\<close>

lemma edge_class_last_difference:
  assumes len: "length topoCode1 - 1 \<le> length topoCode2"
    and dig: "\<forall>i < length topoCode1 - 1. topoCode1 ! i \<noteq> topoCode2 ! i
                \<longrightarrow> is_digit (topoCode1 ! i) \<and> is_digit (topoCode2 ! i)"
  shows "((\<forall>i < length topoCode1 - 1. topoCode1 ! i = topoCode2 ! i)
            \<longrightarrow> edge_class topoCode1 topoCode2 = Inr (CodeInt 0, stratigraphic, ''k''))
       \<and> (j < length topoCode1 - 1 \<and> topoCode1 ! j \<noteq> topoCode2 ! j
            \<and> (\<forall>k. j < k \<and> k < length topoCode1 - 1 \<longrightarrow> topoCode1 ! k = topoCode2 ! k)
            \<longrightarrow> (let d1 = the (digit_of (topoCode1 ! j)); d2 = the (digit_of (topoCode2 ! j));
                     d = max d1 d2
                 in edge_class topoCode1 topoCode2 =
                      Inr (CodeChr (if d2 > d1 then topoCode2 ! j else topoCode1 ! j),
                           (if d = 0 then stratigraphic
                            else if d = 2 \<or> d = 7 \<or> d = 8 then fault
                            else if d = 3 then unconformity
                            else if d = 5 then intrusive
                            else unknown),
                           (if d = 0 then ''k''
                            else if d = 2 \<or> d = 7 \<or> d = 8 then ''r''
                            else if d = 3 then ''b''
                            else if d = 5 then ''y''
                            else ''g''))))"
proof (intro conjI impI)
  assume "\<forall>i < length topoCode1 - 1. topoCode1 ! i = topoCode2 ! i"
  with len show "edge_class topoCode1 topoCode2 = Inr (CodeInt 0, stratigraphic, ''k'')"
    unfolding edge_class_def by (intro edge_scan_equal) auto
next
  let ?n = "length topoCode1 - 1"
  assume a: "j < ?n \<and> topoCode1 ! j \<noteq> topoCode2 ! j
             \<and> (\<forall>k. j < k \<and> k < ?n \<longrightarrow> topoCode1 ! k = topoCode2 ! k)"
  then have split: "[0 ..< ?n] = [0 ..< j] @ j # [Suc j ..< ?n]"
    by (metis le_add1 le_add_same_cancel1 less_imp_add_positive upt_add_eq_append upt_conv_Cons)
  have "edge_scan topoCode1 topoCode2 ([0 ..< j] @ j # [Suc j ..< ?n]) (CodeInt 0, stratigraphic, ''k'')
        = Inr (scan_step topoCode1 topoCode2 j)"
    using a len dig by (intro edge_scan_last_difference) auto
  then have "edge_class topoCode1 topoCode2 = Inr (scan_step topoCode1 topoCode2 j)"
    unfolding edge_class_def split .
  then show "let d1 = the (digit_of (topoCode1 ! j)); d2 = the (digit_of (topoCode2 ! j));
                     d = max d1 d2
                 in edge_class topoCode1 topoCode2 =
                      Inr (CodeChr (if d2 > d1 then topoCode2 ! j else topoCode1 ! j),
                           (if d = 0 then stratigraphic
                            else if d = 2 \<or> d = 7 \<or> d = 8 then fault
                            else if d = 3 then unconformity
                            else if d = 5 then intrusive
                            else unknown),
                           (if d = 0 then ''k''
                            else if d = 2 \<or> d = 7 \<or> d = 8 then ''r''
                            else if d = 3 then ''b''
                            else if d = 5 then ''y''
                            else ''g''))"
    by (simp add: scan_step_def code_class_def Let_def)
qed

section \<open>Removing small nodes\<close>

lemma node_attr_mid:
  assumes "distinct (map fst (pre @ (n, a) # rest))"
  shows "map_of (pre @ (n, a) # rest) n = Some a"
  using assms by (subst map_of_eq_Some_iff) auto

lemma filter_drop_mid:
  assumes "distinct (map fst (pre @ (n, a) # rest))"
  shows "filter (\<lambda>(k, b). k \<noteq> n) (pre @ (n, a) # rest) = pre @ rest"
proof -
  have "\<forall>x \<in> set pre. (case x of (k, b) \<Rightarrow> k \<noteq> n)"
    and "\<forall>x \<in> set rest. (case x of (k, b) \<Rightarrow> k \<noteq> n)"
    using assms by (auto simp: image_iff)
  then have "filter (\<lambda>(k, b). k \<noteq> n) pre = pre" and "filter (\<lambda>(k, b). k \<noteq> n) rest = rest"
    unfolding filter_id_conv by blast+
  then show ?thesis
    by simp
qed

lemma filter_loop_run:
  assumes "node g = pre @ rest" and "distinct (map fst (node g))"
    and "\<forall>na \<in> set rest. volume (snd na) \<noteq> None"
  shows "filter_loop t (map fst rest) g c =
           Inr (g\<lparr>node := pre @ filter (\<lambda>na. \<not> small t na) rest,
                  edge := filter (\<lambda>(k, a). fst k \<notin> small_names t rest \<and> snd k \<notin> small_names t rest)
                            (edge g)\<rparr>,
                c + length (filter (small t) rest))"
  using assms
proof (induction rest arbitrary: pre g c)
  case Nil
  then show ?case by (simp add: small_names_def)
next
  case (Cons na rest)
  obtain n a where na: "na = (n, a)" by (cases na)
  from Cons.prems(1,2) have d: "distinct (map fst (pre @ (n, a) # rest))"
    by (simp add: na)
  have "map_of (node g) n = Some a"
    unfolding Cons.prems(1) na by (rule node_attr_mid [OF d])
  then have attr: "node_attr g n = Inr a"
    by (simp add: node_attr_def)
  from Cons.prems na obtain v where v: "volume a = Some v" by auto
  show ?case
  proof (cases "v < t")
    case False
    then have ns: "\<not> small t na" by (simp add: small_def na v)
    have step: "filter_loop t (map fst (na # rest)) g c = filter_loop t (map fst rest) g c"
      using False by (simp add: na attr v ebind_def)
    have "filter_loop t (map fst rest) g c =
           Inr (g\<lparr>node := (pre @ [na]) @ filter (\<lambda>na. \<not> small t na) rest,
                  edge := filter (\<lambda>(k, a). fst k \<notin> small_names t rest \<and> snd k \<notin> small_names t rest)
                            (edge g)\<rparr>,
                c + length (filter (small t) rest))"
      using Cons.prems by (intro Cons.IH) auto
    with step ns show ?thesis by (simp add: small_names_def)
  next
    case True
    then have sm: "small t na" by (simp add: small_def na v)
    define g1 where "g1 = g\<lparr>node := pre @ rest,
        edge := filter (\<lambda>(k, a). fst k \<noteq> n \<and> snd k \<noteq> n) (edge g)\<rparr>"
    have hn: "has_node g n"
      using Cons.prems(1) by (simp add: has_node_def nodes_def na)
    have rm: "remove_node g n = Inr g1"
      using Cons.prems(1) hn filter_drop_mid [OF d]
      by (simp add: remove_node_def g1_def na)
    have step: "filter_loop t (map fst (na # rest)) g c = filter_loop t (map fst rest) g1 (c + 1)"
      using True by (simp add: na attr v ebind_def rm)
    have "filter_loop t (map fst rest) g1 (c + 1) =
           Inr (g1\<lparr>node := pre @ filter (\<lambda>na. \<not> small t na) rest,
                  edge := filter (\<lambda>(k, a). fst k \<notin> small_names t rest \<and> snd k \<notin> small_names t rest)
                            (edge g1)\<rparr>,
                (c + 1) + length (filter (small t) rest))"
      using Cons.prems by (intro Cons.IH) (auto simp: g1_def)
    moreover have "filter (\<lambda>(k, a). fst k \<notin> small_names t rest \<and> snd k \<notin> small_names t rest) (edge g1)
        = filter (\<lambda>(k, a). fst k \<notin> small_names t (na # rest) \<and> snd k \<notin> small_names t (na # rest)) (edge g)"
      using sm by (auto simp: g1_def small_names_def na intro!: filter_cong)
    ultimately show ?thesis
      using step sm by (simp add: g1_def)
  qed
qed


lemma kept_name_iff:
  assumes "distinct (map fst nas)"
  shows "k \<in> fst ` set (filter (\<lambda>na. \<not> small t na) nas)
         \<longleftrightarrow> k \<in> fst ` set nas \<and> k \<notin> small_names t nas"
proof
  assume "k \<in> fst ` set (filter (\<lambda>na. \<not> small t na) nas)"
  then obtain x where x: "x \<in> set nas" "\<not> small t x" "fst x = k"
    by auto
  have "k \<notin> small_names t nas"
  proof
    assume "k \<in> small_names t nas"
    then obtain y where y: "y \<in> set nas" "small t y" "fst y = k"
      by (auto simp: small_names_def)
    from assms have "inj_on fst (set nas)"
      by (simp add: distinct_map)
    with x y have "x = y"
      by (simp add: inj_on_def)
    with x y show False
      by simp
  qed
  with x show "k \<in> fst ` set nas \<and> k \<notin> small_names t nas"
    by auto
next
  assume a: "k \<in> fst ` set nas \<and> k \<notin> small_names t nas"
  then obtain x where x: "x \<in> set nas" "fst x = k"
    by auto
  with a have "\<not> small t x"
    by (auto simp: small_names_def)
  with x show "k \<in> fst ` set (filter (\<lambda>na. \<not> small t na) nas)"
    by force
qed

lemma filter_loop_all:
  assumes "distinct (map fst (node g))" and "\<forall>na \<in> set (node g). volume (snd na) \<noteq> None"
  shows "filter_node_volumes g t =
           Inr (g\<lparr>node := filter (\<lambda>na. \<not> small t na) (node g),
                  edge := filter (\<lambda>(k, a). fst k \<notin> small_names t (node g)
                                     \<and> snd k \<notin> small_names t (node g)) (edge g)\<rparr>,
                length (filter (small t) (node g)))"
  using filter_loop_run [of g "[]" "node g" t 0] assms
  by (simp add: filter_node_volumes_def nodes_def)

text \<open>
  \<^bold>\<open>C5.\<close>  On a graph whose nodes all carry a volume, \<^verbatim>\<open>filter_node_volumes\<close> removes
  exactly the nodes whose volume is strictly less than the threshold, and with them the
  edges that touch a removed node and no other edge; it returns the number of removed
  nodes; and a second call with the same threshold changes nothing and returns \<open>0\<close>.
\<close>

theorem filter_node_volumes_exact:
  assumes wf: "wf_graph g" and vol: "\<forall>na \<in> set (node g). volume (snd na) \<noteq> None"
  shows "\<exists>g'. filter_node_volumes g min_volume =
                Inr (g', length (filter (\<lambda>na. the (volume (snd na)) < min_volume) (node g)))
     \<and> node g' = filter (\<lambda>na. \<not> the (volume (snd na)) < min_volume) (node g)
     \<and> edge g' = filter (\<lambda>e. fst (fst e) \<in> set (nodes g') \<and> snd (fst e) \<in> set (nodes g')) (edge g)
     \<and> wf_graph g'
     \<and> filter_node_volumes g' min_volume = Inr (g', 0)"
proof -
  let ?t = min_volume
  define g' where "g' = g\<lparr>node := filter (\<lambda>na. \<not> small ?t na) (node g),
      edge := filter (\<lambda>(k, a). fst k \<notin> small_names ?t (node g)
                         \<and> snd k \<notin> small_names ?t (node g)) (edge g)\<rparr>"
  from wf have dist: "distinct (map fst (node g))"
    and ends: "\<forall>e \<in> set (edge g). fst (fst e) \<in> fst ` set (node g) \<and> snd (fst e) \<in> fst ` set (node g)"
    and de: "distinct (map ukey (map fst (edge g)))"
    by (auto simp: wf_graph_def nodes_def edges_iter_def has_node_def list_all_iff)
  have small_eq: "small ?t = (\<lambda>na. the (volume (snd na)) < ?t)"
    by (rule ext) (simp add: small_def)
  have run: "filter_node_volumes g ?t = Inr (g', length (filter (small ?t) (node g)))"
    unfolding g'_def by (rule filter_loop_all [OF dist vol])
  have nodes': "node g' = filter (\<lambda>na. \<not> small ?t na) (node g)"
    by (simp add: g'_def)
  have names': "set (nodes g') = fst ` set (filter (\<lambda>na. \<not> small ?t na) (node g))"
    by (simp add: nodes_def nodes')
  have kept: "k \<in> set (nodes g') \<longleftrightarrow> k \<in> fst ` set (node g) \<and> k \<notin> small_names ?t (node g)"
    for k
    unfolding names' by (rule kept_name_iff [OF dist])
  have "edge g' = filter (\<lambda>(k, a). fst k \<notin> small_names ?t (node g)
                         \<and> snd k \<notin> small_names ?t (node g)) (edge g)"
    by (simp add: g'_def)
  also have "\<dots> = filter (\<lambda>e. fst (fst e) \<in> set (nodes g') \<and> snd (fst e) \<in> set (nodes g')) (edge g)"
    by (rule filter_cong) (use ends kept in auto)
  finally have edges': "edge g' = filter (\<lambda>e. fst (fst e) \<in> set (nodes g')
                         \<and> snd (fst e) \<in> set (nodes g')) (edge g)" .
  have dist': "distinct (map fst (node g'))"
    unfolding nodes' using dist by (rule distinct_map_filter)
  have wf': "wf_graph g'"
    unfolding wf_graph_def
  proof (intro conjI)
    show "distinct (nodes g')"
      using dist' by (simp add: nodes_def)
    show "distinct (map ukey (edges_iter g'))"
      unfolding edges_iter_def edges' filter_map [symmetric]
      using de by (simp add: distinct_map_filter filter_map)
    show "list_all (\<lambda>p. has_node g' (fst p) \<and> has_node g' (snd p)) (edges_iter g')"
      unfolding edges_iter_def has_node_def list_all_iff
      by (subst edges') auto
  qed
  have vol': "\<forall>na \<in> set (node g'). volume (snd na) \<noteq> None"
    using vol by (simp add: nodes')
  have none: "filter (small ?t) (node g') = []"
    by (simp add: nodes')
  then have nonames: "small_names ?t (node g') = {}"
    by (simp add: small_names_def)
  have "filter_node_volumes g' ?t = Inr (g'\<lparr>node := node g', edge := edge g'\<rparr>, 0)"
    using filter_loop_all [OF dist' vol', of ?t]
    unfolding none nonames by (simp add: nodes')
  then have again: "filter_node_volumes g' ?t = Inr (g', 0)"
    by simp
  show ?thesis
    using run nodes' edges' wf' again unfolding small_eq by blast
qed

theorem filter_node_volumes_exact_witness:
  "wf_graph topo_B
   \<and> (\<exists>g'. filter_node_volumes topo_B 50 = Inr (g', 1)
          \<and> nodes g' = [''1_000a'', ''2_051a''] \<and> edge g' = []
          \<and> filter_node_volumes g' 50 = Inr (g', 0))"
proof -
  have wf: "wf_graph topo_B"
    by (rule wf_examples)
  have vol: "\<forall>na \<in> set (node topo_B). volume (snd na) \<noteq> None"
    by (simp add: topo_B_def)
  from filter_node_volumes_exact [OF wf vol, of 50] obtain g' where
    run: "filter_node_volumes topo_B 50 =
            Inr (g', length (filter (\<lambda>na. the (volume (snd na)) < 50) (node topo_B)))"
    and n: "node g' = filter (\<lambda>na. \<not> the (volume (snd na)) < 50) (node topo_B)"
    and e: "edge g' = filter (\<lambda>e. fst (fst e) \<in> set (nodes g') \<and> snd (fst e) \<in> set (nodes g'))
                        (edge topo_B)"
    and again: "filter_node_volumes g' 50 = Inr (g', 0)"
    by blast
  have names: "nodes g' = [''1_000a'', ''2_051a'']"
    by (simp add: nodes_def n topo_B_def)
  have "edge g' = []"
    by (subst e) (simp add: names, simp add: topo_B_def)
  moreover have "length (filter (\<lambda>na. the (volume (snd na)) < 50) (node topo_B)) = 1"
    by (simp add: topo_B_def)
  ultimately show ?thesis
    using wf run names again by auto
qed

section \<open>Lithology definitions\<close>

lemma ebind_Inr: "ebind m f = Inr y \<longleftrightarrow> (\<exists>x. m = Inr x \<and> f x = Inr y)"
  by (cases m) (simp_all add: ebind_def)

lemma py_index_Inr:
  "py_index xs i = Inr x \<longleftrightarrow>
     (0 \<le> i \<and> i < int (length xs) \<and> x = xs ! nat i)
     \<or> (i < 0 \<and> - int (length xs) \<le> i \<and> x = xs ! nat (int (length xs) + i))"
  by (auto simp: py_index_def)

lemma parse_lithology_entry:
  assumes "parse_lithology float div255 line = Inr p"
  shows "lithology_entry float div255 line p"
proof -
  let ?l = "py_split (CHR '' '') (py_strip line)"
  from assms obtain c code r fr g fg b fb where
    c: "py_index ?l 0 = Inr c" and code: "py_int c = Inr code"
    and r: "py_index ?l (- 3) = Inr r" and fr: "float r = Inr fr"
    and g: "py_index ?l (- 2) = Inr g" and fg: "float g = Inr fg"
    and b: "py_index ?l (- 1) = Inr b" and fb: "float b = Inr fb"
    and p: "p = \<lparr>l_code = code, l_name = py_join '' '' (py_slice_to_end ?l 2 3),
                 l_colour = [div255 fr, div255 fg, div255 fb]\<rparr>"
    unfolding parse_lithology_def Let_def ebind_Inr by auto
  from r have n: "3 \<le> length ?l" and r': "r = ?l ! (length ?l - 3)"
    by (auto simp: py_index_Inr nat_diff_distrib')
  from g n have g': "g = ?l ! (length ?l - 2)"
    by (auto simp: py_index_Inr nat_diff_distrib')
  from b n have b': "b = ?l ! (length ?l - 1)"
    by (auto simp: py_index_Inr nat_diff_distrib')
  from c have c': "c = ?l ! 0"
    by (auto simp: py_index_Inr)
  show ?thesis
    unfolding lithology_entry_def Let_def
    using n code fr fg fb by (simp add: p r' g' b' c' py_slice_to_end_def)
qed

lemma lithology_loop_entries:
  assumes "lithology_loop float div255 lines is props0 = Inr props"
    and "\<forall>i \<in> set is. 0 \<le> i"
  shows "(\<forall>c p. props c = Some p \<longrightarrow>
            props0 c = Some p
            \<or> (\<exists>i \<in> set is. nat i < length lines \<and> l_code p = c
                  \<and> lithology_entry float div255 (lines ! nat i) p))
       \<and> (\<forall>i \<in> set is. nat i < length lines
              \<and> (\<exists>p. lithology_entry float div255 (lines ! nat i) p \<and> props (l_code p) \<noteq> None))
       \<and> dom props0 \<subseteq> dom props"
  using assms
proof (induction "is" arbitrary: props0)
  case Nil
  then show ?case by simp
next
  case (Cons i "is")
  from Cons.prems(1) obtain line params where
    line: "py_index lines i = Inr line"
    and par: "parse_lithology float div255 line = Inr params"
    and rest: "lithology_loop float div255 lines is (props0(l_code params \<mapsto> params)) = Inr props"
    by (auto simp: ebind_Inr)
  from Cons.prems(2) have i0: "0 \<le> i" and is0: "\<forall>i \<in> set is. 0 \<le> i"
    by simp_all
  from line i0 have il: "nat i < length lines" and l: "line = lines ! nat i"
    by (auto simp: py_index_Inr)
  from par have ent: "lithology_entry float div255 (lines ! nat i) params"
    unfolding l by (rule parse_lithology_entry)
  note IH = Cons.IH [OF rest is0]
  from IH have dom: "dom (props0(l_code params \<mapsto> params)) \<subseteq> dom props"
    by blast
  show ?case
  proof (intro conjI allI impI ballI)
    fix c p assume "props c = Some p"
    with IH have "(props0(l_code params \<mapsto> params)) c = Some p
        \<or> (\<exists>i \<in> set is. nat i < length lines \<and> l_code p = c
               \<and> lithology_entry float div255 (lines ! nat i) p)"
      by blast
    then show "props0 c = Some p
        \<or> (\<exists>i \<in> set (i # is). nat i < length lines \<and> l_code p = c
               \<and> lithology_entry float div255 (lines ! nat i) p)"
      using il ent by (auto split: if_splits)
  next
    fix k assume "k \<in> set (i # is)"
    then consider "k = i" | "k \<in> set is" by auto
    then show "nat k < length lines" using il IH by cases auto
  next
    fix k assume "k \<in> set (i # is)"
    then consider "k = i" | "k \<in> set is" by auto
    then show "\<exists>p. lithology_entry float div255 (lines ! nat k) p \<and> props (l_code p) \<noteq> None"
    proof cases
      case 1
      from dom have "props (l_code params) \<noteq> None" by auto
      with ent 1 show ?thesis by blast
    next
      case 2
      with IH show ?thesis by blast
    qed
  next
    show "dom props0 \<subseteq> dom props" using dom by auto
  qed
qed

lemma read_lithology_entries:
  assumes "read_lithology float div255 lines = Inr props"
  shows "\<exists>N. lines \<noteq> [] \<and> 2 < length (py_split (CHR '' '') (lines ! 0))
           \<and> py_int (py_split (CHR '' '') (lines ! 0) ! 2) = Inr N
           \<and> (0 \<le> N \<longrightarrow>
                (\<forall>c p. props c = Some p \<longrightarrow>
                   (\<exists>i. nat N + 3 \<le> i \<and> i < length lines \<and> l_code p = c
                        \<and> lithology_entry float div255 (lines ! i) p))
              \<and> (\<forall>i. nat N + 3 \<le> i \<and> i < length lines \<longrightarrow>
                   (\<exists>p. lithology_entry float div255 (lines ! i) p \<and> props (l_code p) \<noteq> None)))"
proof -
  from assms obtain first tok N where
    first: "py_index lines 0 = Inr first"
    and tok: "py_index (py_split (CHR '' '') first) 2 = Inr tok"
    and N: "py_int tok = Inr N"
    and loop: "lithology_loop float div255 lines [N + 3 .. int (length lines) - 1] Map.empty
               = Inr props"
    by (auto simp: read_lithology_def ebind_Inr)
  from first have ne: "lines \<noteq> []" and f: "first = lines ! 0"
    by (auto simp: py_index_Inr)
  from tok have len: "2 < length (py_split (CHR '' '') (lines ! 0))"
    and t: "tok = py_split (CHR '' '') (lines ! 0) ! 2"
    by (auto simp: py_index_Inr f)
  have main: "(\<forall>c p. props c = Some p \<longrightarrow>
                   (\<exists>i. nat N + 3 \<le> i \<and> i < length lines \<and> l_code p = c
                        \<and> lithology_entry float div255 (lines ! i) p))
              \<and> (\<forall>i. nat N + 3 \<le> i \<and> i < length lines \<longrightarrow>
                   (\<exists>p. lithology_entry float div255 (lines ! i) p \<and> props (l_code p) \<noteq> None))"
    if N0: "0 \<le> N"
  proof -
    have pos: "\<forall>i \<in> set [N + 3 .. int (length lines) - 1]. 0 \<le> i"
      using N0 by auto
    note L = lithology_loop_entries [OF loop pos]
    show ?thesis
    proof (intro conjI allI impI)
      fix c p assume "props c = Some p"
      with L have "Map.empty c = Some p
          \<or> (\<exists>i \<in> set [N + 3 .. int (length lines) - 1]. nat i < length lines \<and> l_code p = c
                \<and> lithology_entry float div255 (lines ! nat i) p)"
        by blast
      then obtain i where "i \<in> set [N + 3 .. int (length lines) - 1]"
        "nat i < length lines" "l_code p = c" "lithology_entry float div255 (lines ! nat i) p"
        by (auto simp del: set_upto)
      then show "\<exists>i. nat N + 3 \<le> i \<and> i < length lines \<and> l_code p = c
                        \<and> lithology_entry float div255 (lines ! i) p"
        using N0 by (intro exI [of _ "nat i"]) auto
    next
      fix i assume "nat N + 3 \<le> i \<and> i < length lines"
      then have "int i \<in> set [N + 3 .. int (length lines) - 1]"
        using N0 by auto
      with L show "\<exists>p. lithology_entry float div255 (lines ! i) p \<and> props (l_code p) \<noteq> None"
        by fastforce
    qed
  qed
  show ?thesis
    using ne len N main unfolding t by blast
qed

text \<open>
  \<^bold>\<open>C9\<close>, as the code has it.  When \<^verbatim>\<open>read_properties\<close> returns, the third
  space-separated field of the first line of the properties file is the event count \<open>N\<close>,
  and for \<open>N \<ge> 0\<close> the lithology definitions are the lines from index \<open>N + 3\<close> to the end
  of the file: every entry of \<^verbatim>\<open>lithology_properties\<close> is such a line, stored under its
  code, and every such line has its code in the dictionary.  The fields of a definition
  line are the pieces of the stripped line between single spaces, not its
  white-space-delimited tokens: the code is the first field as an integer, the name is
  the join of the fields from index 2 up to the last three, and the colour is the last
  three fields as floats, each divided by \<open>255.0\<close>.
\<close>

theorem read_properties_lithology:
  assumes "read_properties float div255 g20_lines vs_lines = Inr (lithology_properties, node_properties)"
  shows "\<exists>N. g20_lines \<noteq> [] \<and> 2 < length (py_split (CHR '' '') (g20_lines ! 0))
           \<and> py_int (py_split (CHR '' '') (g20_lines ! 0) ! 2) = Inr N
           \<and> (0 \<le> N \<longrightarrow>
                (\<forall>c p. lithology_properties c = Some p \<longrightarrow>
                   (\<exists>i. nat N + 3 \<le> i \<and> i < length g20_lines \<and> l_code p = c
                        \<and> lithology_entry float div255 (g20_lines ! i) p))
              \<and> (\<forall>i. nat N + 3 \<le> i \<and> i < length g20_lines \<longrightarrow>
                   (\<exists>p. lithology_entry float div255 (g20_lines ! i) p
                        \<and> lithology_properties (l_code p) \<noteq> None)))"
proof -
  from assms have "read_lithology float div255 g20_lines = Inr lithology_properties"
    by (auto simp: read_properties_def ebind_Inr)
  then show ?thesis
    by (rule read_lithology_entries)
qed

theorem read_properties_lithology_witness:
  "\<exists>lp np. read_properties ex_float ex_div255 ex_g20 ex_vs = Inr (lp, np)
      \<and> py_int (py_split (CHR '' '') (ex_g20 ! 0) ! 2) = Inr 1
      \<and> (\<exists>p. lithology_entry ex_float ex_div255 (ex_g20 ! 5) p \<and> l_name p = ''Dyke''
              \<and> lp (l_code p) \<noteq> None)"
proof -
  from loadNetwork_topo_B obtain lp np where
    run: "read_properties ex_float ex_div255 ex_g20 ex_vs = Inr (lp, np)"
    by (auto simp: loadNetwork_def ebind_Inr)
  have n: "py_int (py_split (CHR '' '') (ex_g20 ! 0) ! 2) = Inr 1"
    by code_simp
  from read_properties_lithology [OF run] n have
    "\<forall>i. nat 1 + 3 \<le> i \<and> i < length ex_g20 \<longrightarrow>
       (\<exists>p. lithology_entry ex_float ex_div255 (ex_g20 ! i) p \<and> lp (l_code p) \<noteq> None)"
    by auto
  moreover have "nat 1 + 3 \<le> (5::nat) \<and> 5 < length ex_g20"
    by (simp add: ex_g20_def)
  ultimately obtain p where p: "lithology_entry ex_float ex_div255 (ex_g20 ! 5) p"
    "lp (l_code p) \<noteq> None"
    by blast
  have toks: "py_split (CHR '' '') (py_strip (ex_g20 ! 5)) = [''2'', ''1'', ''Dyke'', ''0'', ''51'', ''255'']"
    by code_simp
  from p(1) have "l_name p = ''Dyke''"
    by (simp add: lithology_entry_def toks)
  with run n p show ?thesis
    by blast
qed

text \<open>With two spaces before the name the fields are not the white-space-delimited
  tokens: the name the code stores starts with a space.\<close>

theorem read_properties_not_whitespace_tokens:
  "ebind (read_properties ex_float ex_div255 ex_g20_spaced ex_vs) (\<lambda>(lp, np). dict_get lp 1)
     = Inr \<lparr>l_code = 1, l_name = '' Upper Sand'', l_colour = [1, 0, 0]\<rparr>
   \<and> spec_lithology_name (ex_g20_spaced ! 4) = ''Upper Sand''"
  by code_simp

section \<open>The graph built by \<^verbatim>\<open>loadNetwork\<close>\<close>

lemma nodes_set_node_attr [simp]: "nodes (set_node_attr g n f) = nodes g"
  by (auto simp: nodes_def set_node_attr_def)

lemma edge_set_node_attr [simp]: "edge (set_node_attr g n f) = edge g"
  by (simp add: set_node_attr_def)

lemma nodes_add_node:
  "nodes (add_node g n f) = (if n \<in> set (nodes g) then nodes g else nodes g @ [n])"
  by (simp add: add_node_def has_node_def) (simp add: nodes_def)

lemma edge_add_node [simp]: "edge (add_node g n f) = edge g"
  by (simp add: add_node_def)

lemma has_edge_cong: "edge g = edge g' \<Longrightarrow> has_edge g u v = has_edge g' u v"
  by (simp add: has_edge_def)

lemma edge_add_edge:
  "edge (add_edge g u v a) =
     (if has_edge g u v
      then map (\<lambda>(k, b). if same_pair k (u, v) then (k, a) else (k, b)) (edge g)
      else edge g @ [((u, v), a)])"
proof -
  have "has_edge (add_node (add_node g u (\<lambda>x. x)) v (\<lambda>x. x)) u v = has_edge g u v"
    by (rule has_edge_cong) simp
  then show ?thesis
    by (simp add: add_edge_def Let_def)
qed

lemma nodes_add_edge:
  "nodes (add_edge g u v a) = nodes (add_node (add_node g u (\<lambda>x. x)) v (\<lambda>x. x))"
  by (simp add: add_edge_def Let_def nodes_def)

lemma set_nodes_add_edge: "set (nodes (add_edge g u v a)) = set (nodes g) \<union> {u, v}"
  by (auto simp: nodes_add_edge nodes_add_node)

lemma distinct_nodes_add_node: "distinct (nodes g) \<Longrightarrow> distinct (nodes (add_node g n f))"
  by (simp add: nodes_add_node)

lemma distinct_nodes_add_edge: "distinct (nodes g) \<Longrightarrow> distinct (nodes (add_edge g u v a))"
  by (simp add: nodes_add_edge distinct_nodes_add_node)

lemma edges_iter_add_edge:
  "edges_iter (add_edge g u v a) = (if has_edge g u v then edges_iter g else edges_iter g @ [(u, v)])"
  by (auto simp: edges_iter_def edge_add_edge)

lemma edge_set_add_edge: "edge_set (add_edge g u v a) = insert (ukey (u, v)) (edge_set g)"
  by (auto simp: edge_set_def edges_iter_add_edge has_edge_edge_set)

lemma wf_graph_add_edge:
  assumes "wf_graph g"
  shows "wf_graph (add_edge g u v a)"
proof -
  from assms have dn: "distinct (nodes g)" and de: "distinct (map ukey (edges_iter g))"
    and en: "\<forall>p \<in> set (edges_iter g). fst p \<in> set (nodes g) \<and> snd p \<in> set (nodes g)"
    by (auto simp: wf_graph_def list_all_iff has_node_def)
  have "distinct (map ukey (edges_iter (add_edge g u v a)))"
    using de by (auto simp: edges_iter_add_edge has_edge_edge_set edge_set_def)
  moreover have "\<forall>p \<in> set (edges_iter (add_edge g u v a)).
      fst p \<in> set (nodes (add_edge g u v a)) \<and> snd p \<in> set (nodes (add_edge g u v a))"
    using en by (auto simp: edges_iter_add_edge set_nodes_add_edge)
  ultimately show ?thesis
    using distinct_nodes_add_edge [OF dn]
    by (simp add: wf_graph_def list_all_iff has_node_def)
qed

lemma same_pair_trans: "same_pair k p \<Longrightarrow> same_pair k q = same_pair p q"
  by (simp add: same_pair_ukey)

lemma find_app:
  "find P (xs @ ys) = (case find P xs of None \<Rightarrow> find P ys | Some x \<Rightarrow> Some x)"
  by (induction xs) auto

lemma find_map_update:
  "find (\<lambda>(k, b). same_pair k q) (map (\<lambda>(k, b). if same_pair k p then (k, a) else (k, b)) es)
   = map_option (\<lambda>(k, b). if same_pair k p then (k, a) else (k, b)) (find (\<lambda>(k, b). same_pair k q) es)"
  by (induction es) (auto simp: case_prod_beta)

lemma edge_data_add_edge:
  "edge_data (add_edge g u v a) u' v' =
     (if same_pair (u, v) (u', v') then Some a else edge_data g u' v')"
proof (cases "has_edge g u v")
  case True
  show ?thesis
  proof (cases "same_pair (u, v) (u', v')")
    case same: True
    from True obtain k b where kb: "find (\<lambda>(k, b). same_pair k (u, v)) (edge g) = Some (k, b)"
      by (cases "find (\<lambda>(k, b). same_pair k (u, v)) (edge g)")
        (auto simp: has_edge_def list_ex_iff find_None_iff)
    have eq: "(\<lambda>(k, b). same_pair k (u', v')) = (\<lambda>(k, b :: eattrs). same_pair k (u, v))"
      using same by (auto simp: fun_eq_iff same_pair_ukey)
    from kb have "same_pair k (u, v)"
      by (auto dest: find_Some_iff [THEN iffD1])
    with kb same True show ?thesis
      by (simp add: edge_data_def edge_add_edge find_map_update eq)
  next
    case diff: False
    have "\<And>k b. find (\<lambda>(k, b). same_pair k (u', v')) (edge g) = Some (k, b) \<Longrightarrow> \<not> same_pair k (u, v)"
      using diff by (auto dest!: find_Some_iff [THEN iffD1] simp: same_pair_ukey)
    with diff True show ?thesis
      by (cases "find (\<lambda>(k, b). same_pair k (u', v')) (edge g)")
        (auto simp: edge_data_def edge_add_edge find_map_update)
  qed
next
  case False
  then have none: "find (\<lambda>(k, b). same_pair k (u, v)) (edge g) = None"
    by (auto simp: has_edge_def list_ex_iff find_None_iff)
  show ?thesis
  proof (cases "same_pair (u, v) (u', v')")
    case same: True
    have eq: "(\<lambda>(k, b). same_pair k (u', v')) = (\<lambda>(k, b :: eattrs). same_pair k (u, v))"
      using same by (auto simp: fun_eq_iff same_pair_ukey)
    from False none same show ?thesis
      by (simp add: edge_data_def edge_add_edge find_app eq)
        (simp add: same_pair_def)
  next
    case diff: False
    then have "\<not> same_pair (u, v) (u', v')" .
    with False show ?thesis
      by (cases "find (\<lambda>(k, b). same_pair k (u', v')) (edge g)")
        (auto simp: edge_data_def edge_add_edge find_app)
  qed
qed

lemma load_node_Inr:
  assumes "load_node lp np g n lc tc = Inr g'"
  shows "edge g' = edge g"
    and "nodes g' = (if n \<in> set (nodes g) then nodes g else nodes g @ [n])"
  using assms
  by (auto simp: load_node_def ebind_Inr Let_def nodes_add_node)

lemma load_node_volumes:
  assumes "load_node lp np g n lc tc = Inr g'" and "has_volumes g"
  shows "has_volumes g'"
  using assms
  by (fastforce simp: load_node_def ebind_Inr Let_def has_volumes_def list_all_iff
      set_node_attr_def add_node_def split: if_splits)

lemma add_node_known: "has_node g n \<Longrightarrow> add_node g n (\<lambda>x. x) = g"
proof -
  have "(\<lambda>(k, a). if k = n then (k, a) else (k, a)) = (\<lambda>x :: string \<times> 'a nattrs. x)"
    by auto
  then show "has_node g n \<Longrightarrow> add_node g n (\<lambda>x. x) = g"
    by (simp add: add_node_def set_node_attr_def)
qed

lemma node_add_edge:
  assumes "has_node g u" and "has_node g v"
  shows "node (add_edge g u v a) = node g"
  using assms by (simp add: add_edge_def Let_def add_node_known)

lemma py_index_last:
  assumes "py_index xs (- 1) = Inr x"
  shows "xs \<noteq> [] \<and> x = last xs"
proof -
  from assms have ne: "xs \<noteq> []" and x: "x = xs ! nat (int (length xs) + - 1)"
    by (auto simp: py_index_Inr)
  have "nat (int (length xs) + - 1) = length xs - 1"
    by simp
  with x have "x = xs ! (length xs - 1)"
    by (simp only:)
  with ne show ?thesis
    by (simp only: last_conv_nth [OF ne] simp_thms)
qed

lemma load_line_Inr:
  assumes "load_line lp np g line = Inr g'"
  shows "\<exists>g2 a. 2 \<le> length (g23_fields line)
    \<and> py_int (last (g23_fields line)) = Inr (area a)
    \<and> edge g2 = edge g
    \<and> set (nodes g2) = set (nodes g) \<union> {fst (g23_pair line), snd (g23_pair line)}
    \<and> (distinct (nodes g) \<longrightarrow> distinct (nodes g2))
    \<and> (has_volumes g \<longrightarrow> has_volumes g2)
    \<and> g' = add_edge g2 (fst (g23_pair line)) (snd (g23_pair line)) a"
proof -
  let ?data = "g23_fields line"
  from assms have "\<exists>n1 t1 n2 t2 l1 l2 c count eCode eType eColour g1 g2.
      py_index ?data 0 = Inr n1 \<and> py_index ?data 1 = Inr n2
      \<and> py_index ?data (- 1) = Inr c \<and> py_int c = Inr count
      \<and> load_node lp np g n1 l1 t1 = Inr g1
      \<and> load_node lp np g1 n2 l2 t2 = Inr g2
      \<and> g' = add_edge g2 n1 n2 \<lparr>edgeCode = eCode, edgeType = eType,
               e_colour = eColour, area = count, weight = 1\<rparr>"
    by (simp add: load_line_def Let_def ebind_Inr g23_fields_def split: prod.splits) blast
  then obtain n1 t1 n2 t2 l1 l2 c count eCode eType eColour g1 g2 where
    n1: "py_index ?data 0 = Inr n1" and n2: "py_index ?data 1 = Inr n2"
    and c: "py_index ?data (- 1) = Inr c" and count: "py_int c = Inr count"
    and g1: "load_node lp np g n1 l1 t1 = Inr g1"
    and g2: "load_node lp np g1 n2 l2 t2 = Inr g2"
    and g': "g' = add_edge g2 n1 n2 \<lparr>edgeCode = eCode, edgeType = eType,
               e_colour = eColour, area = count, weight = 1\<rparr>"
    by blast
  let ?a = "\<lparr>edgeCode = eCode, edgeType = eType, e_colour = eColour, area = count,
             weight = 1\<rparr>"
  from n1 n2 have len: "2 \<le> length ?data" and p: "g23_pair line = (n1, n2)"
    by (auto simp: py_index_Inr g23_pair_def)
  from c have last: "c = last ?data"
    by (auto dest: py_index_last)
  have "py_int (last ?data) = Inr (area ?a)"
    using count last by simp
  moreover have "edge g2 = edge g"
    using load_node_Inr(1) [OF g1] load_node_Inr(1) [OF g2] by simp
  moreover have "set (nodes g2) = set (nodes g) \<union> {fst (g23_pair line), snd (g23_pair line)}"
    using load_node_Inr(2) [OF g1] load_node_Inr(2) [OF g2] by (auto simp: p split: if_splits)
  moreover have "distinct (nodes g) \<longrightarrow> distinct (nodes g2)"
    using load_node_Inr(2) [OF g1] load_node_Inr(2) [OF g2] by (auto split: if_splits)
  moreover have "has_volumes g \<longrightarrow> has_volumes g2"
    using load_node_volumes [OF g1] load_node_volumes [OF g2] by blast
  moreover have "g' = add_edge g2 (fst (g23_pair line)) (snd (g23_pair line)) ?a"
    using g' by (simp add: p)
  ultimately show ?thesis
    using len by blast
qed

lemma load_line_post:
  assumes "load_line lp np g line = Inr g'" and "wf_graph g"
  shows "wf_graph g'"
    and "set (nodes g') = set (nodes g) \<union> {fst (g23_pair line), snd (g23_pair line)}"
    and "edge_set g' = insert (ukey (g23_pair line)) (edge_set g)"
    and "2 \<le> length (g23_fields line)"
    and "\<exists>a. edge_data g' (fst (g23_pair line)) (snd (g23_pair line)) = Some a
            \<and> py_int (last (g23_fields line)) = Inr (area a)"
    and "\<not> same_pair (g23_pair line) (u, v) \<Longrightarrow> edge_data g' u v = edge_data g u v"
    and "has_volumes g \<Longrightarrow> has_volumes g'"
proof -
  from assms(1) obtain g2 a where len: "2 \<le> length (g23_fields line)"
    and cnt: "py_int (last (g23_fields line)) = Inr (area a)"
    and e2: "edge g2 = edge g"
    and n2: "set (nodes g2) = set (nodes g) \<union> {fst (g23_pair line), snd (g23_pair line)}"
    and d2: "distinct (nodes g) \<longrightarrow> distinct (nodes g2)"
    and v2: "has_volumes g \<longrightarrow> has_volumes g2"
    and g': "g' = add_edge g2 (fst (g23_pair line)) (snd (g23_pair line)) a"
    using load_line_Inr [OF assms(1)] by blast
  have wf2: "wf_graph g2"
    using assms(2) d2 n2 by (auto simp: wf_graph_def edges_iter_def e2 has_node_def list_all_iff)
  show "wf_graph g'"
    unfolding g' by (rule wf_graph_add_edge [OF wf2])
  show "set (nodes g') = set (nodes g) \<union> {fst (g23_pair line), snd (g23_pair line)}"
    unfolding g' using n2 by (auto simp: set_nodes_add_edge)
  have es: "edge_set g2 = edge_set g"
    by (simp add: edge_set_def edges_iter_def e2)
  show "edge_set g' = insert (ukey (g23_pair line)) (edge_set g)"
    unfolding g' by (simp add: edge_set_add_edge es)
  show "2 \<le> length (g23_fields line)" by (rule len)
  have ed: "edge_data g2 x y = edge_data g x y" for x y
    by (simp add: edge_data_def e2)
  show "\<exists>a. edge_data g' (fst (g23_pair line)) (snd (g23_pair line)) = Some a
            \<and> py_int (last (g23_fields line)) = Inr (area a)"
    unfolding g' using cnt by (simp add: edge_data_add_edge same_pair_def)
  show "edge_data g' u v = edge_data g u v" if "\<not> same_pair (g23_pair line) (u, v)"
    unfolding g' using that by (simp add: edge_data_add_edge ed)
  show "has_volumes g'" if "has_volumes g"
  proof -
    have "has_node g2 (fst (g23_pair line))" "has_node g2 (snd (g23_pair line))"
      using n2 by (auto simp: has_node_def)
    then have "node g' = node g2"
      unfolding g' by (rule node_add_edge)
    with v2 that show ?thesis
      by (simp add: has_volumes_def)
  qed
qed

lemma load_lines_post:
  assumes "load_lines lp np ls g = Inr g'" and "wf_graph g"
  shows "wf_graph g'
     \<and> set (nodes g') = set (nodes g) \<union> (\<Union>line \<in> set ls. {fst (g23_pair line), snd (g23_pair line)})
     \<and> edge_set g' = edge_set g \<union> (ukey \<circ> g23_pair) ` set ls
     \<and> (\<forall>i < length ls. 2 \<le> length (g23_fields (ls ! i)))
     \<and> (\<forall>i < length ls.
           (\<forall>j. i < j \<and> j < length ls \<longrightarrow> \<not> same_pair (g23_pair (ls ! j)) (g23_pair (ls ! i)))
           \<longrightarrow> (\<exists>a. edge_data g' (fst (g23_pair (ls ! i))) (snd (g23_pair (ls ! i))) = Some a
                    \<and> py_int (last (g23_fields (ls ! i))) = Inr (area a)))
     \<and> (\<forall>u v. (\<forall>line \<in> set ls. \<not> same_pair (g23_pair line) (u, v))
           \<longrightarrow> edge_data g' u v = edge_data g u v)
     \<and> (has_volumes g \<longrightarrow> has_volumes g')"
  using assms
proof (induction ls arbitrary: g)
  case Nil
  then show ?case by simp
next
  case (Cons l ls)
  from Cons.prems(1) obtain g1 where g1: "load_line lp np g l = Inr g1"
    and rest: "load_lines lp np ls g1 = Inr g'"
    by (auto simp: ebind_Inr)
  note L = load_line_post [OF g1 Cons.prems(2)]
  note IH = Cons.IH [OF rest L(1)]
  from IH have keep: "\<And>u v. (\<forall>line \<in> set ls. \<not> same_pair (g23_pair line) (u, v))
           \<Longrightarrow> edge_data g' u v = edge_data g1 u v"
    by blast
  show ?case
  proof (intro conjI allI impI)
    show "wf_graph g'" using IH by blast
    show "set (nodes g') = set (nodes g)
            \<union> (\<Union>line \<in> set (l # ls). {fst (g23_pair line), snd (g23_pair line)})"
      using IH L(2) by auto
    show "edge_set g' = edge_set g \<union> (ukey \<circ> g23_pair) ` set (l # ls)"
      using IH L(3) by auto
  next
    fix i assume "i < length (l # ls)"
    then show "2 \<le> length (g23_fields ((l # ls) ! i))"
      using IH L(4) by (cases i) auto
  next
    fix i assume i: "i < length (l # ls)"
      and lastp: "\<forall>j. i < j \<and> j < length (l # ls)
                    \<longrightarrow> \<not> same_pair (g23_pair ((l # ls) ! j)) (g23_pair ((l # ls) ! i))"
    show "\<exists>a. edge_data g' (fst (g23_pair ((l # ls) ! i))) (snd (g23_pair ((l # ls) ! i))) = Some a
               \<and> py_int (last (g23_fields ((l # ls) ! i))) = Inr (area a)"
    proof (cases i)
      case 0
      have "\<forall>line \<in> set ls. \<not> same_pair (g23_pair line) (fst (g23_pair l), snd (g23_pair l))"
      proof
        fix line assume "line \<in> set ls"
        then obtain j where "j < length ls" "line = ls ! j"
          by (auto simp: in_set_conv_nth)
        with lastp [rule_format, of "Suc j"] 0 show
          "\<not> same_pair (g23_pair line) (fst (g23_pair l), snd (g23_pair l))"
          by simp
      qed
      from keep [OF this] L(5) 0 show ?thesis
        by simp
    next
      case (Suc k)
      with i have k: "k < length ls" by simp
      have "\<forall>j. k < j \<and> j < length ls \<longrightarrow> \<not> same_pair (g23_pair (ls ! j)) (g23_pair (ls ! k))"
      proof (intro allI impI)
        fix j assume "k < j \<and> j < length ls"
        with lastp [rule_format, of "Suc j"] Suc show
          "\<not> same_pair (g23_pair (ls ! j)) (g23_pair (ls ! k))"
          by simp
      qed
      with IH k Suc show ?thesis
        by simp
    qed
  next
    fix u v assume "\<forall>line \<in> set (l # ls). \<not> same_pair (g23_pair line) (u, v)"
    then have a: "\<not> same_pair (g23_pair l) (u, v)"
      and b: "\<forall>line \<in> set ls. \<not> same_pair (g23_pair line) (u, v)"
      by simp_all
    from keep [OF b] L(6) [OF a] show "edge_data g' u v = edge_data g u v"
      by simp
  next
    assume "has_volumes g"
    with L(7) IH show "has_volumes g'" by blast
  qed
qed

lemma wf_empty_graph: "wf_graph empty_graph"
  by (simp add: wf_graph_def empty_graph_def nodes_def edges_iter_def)

lemma has_volumes_empty_graph: "has_volumes empty_graph"
  by (simp add: has_volumes_def empty_graph_def)

lemma loadNetwork_invariant:
  assumes "loadNetwork float div255 g20_lines vs_lines g23_lines = Inr g"
  shows "wf_graph g" and "\<forall>na \<in> set (node g). volume (snd na) \<noteq> None"
proof -
  from assms obtain lp np where "load_lines lp np g23_lines empty_graph = Inr g"
    by (auto simp: loadNetwork_def ebind_Inr)
  note P = load_lines_post [OF this wf_empty_graph]
  from P show "wf_graph g"
    by blast
  from P has_volumes_empty_graph have "has_volumes g"
    by blast
  then show "\<forall>na \<in> set (node g). volume (snd na) \<noteq> None"
    by (simp add: has_volumes_def list_all_iff)
qed

text \<open>
  \<^bold>\<open>C8.\<close>  When \<^verbatim>\<open>loadNetwork\<close> returns, the nodes of the graph are exactly the node
  identifiers in the first two fields of the lines of the edge-list file, no two edges
  join the same unordered pair of nodes, the edges are exactly the pairs of the lines,
  and for every line that is the last one with its unordered pair the \<^verbatim>\<open>area\<close> of the
  edge is the count in the last field of that line.
\<close>

theorem loadNetwork_graph:
  assumes "loadNetwork float div255 g20_lines vs_lines g23_lines = Inr g"
  shows "set (nodes g) = (\<Union>line \<in> set g23_lines. {g23_fields line ! 0, g23_fields line ! 1})
     \<and> distinct (nodes g) \<and> distinct (map ukey (edges_iter g))
     \<and> edge_set g = (\<lambda>line. {g23_fields line ! 0, g23_fields line ! 1}) ` set g23_lines
     \<and> (\<forall>i < length g23_lines.
           (\<forall>j. i < j \<and> j < length g23_lines
                \<longrightarrow> {g23_fields (g23_lines ! j) ! 0, g23_fields (g23_lines ! j) ! 1}
                     \<noteq> {g23_fields (g23_lines ! i) ! 0, g23_fields (g23_lines ! i) ! 1})
           \<longrightarrow> (\<exists>a. edge_data g (g23_fields (g23_lines ! i) ! 0) (g23_fields (g23_lines ! i) ! 1)
                        = Some a
                    \<and> py_int (last (g23_fields (g23_lines ! i))) = Inr (area a)))"
proof -
  from assms obtain lp np where "load_lines lp np g23_lines empty_graph = Inr g"
    by (auto simp: loadNetwork_def ebind_Inr)
  note P = load_lines_post [OF this wf_empty_graph]
  have e: "set (nodes (empty_graph :: 'f graph)) = {}" "edge_set (empty_graph :: 'f graph) = {}"
    by (simp_all add: empty_graph_def nodes_def edge_set_def edges_iter_def)
  from P have "wf_graph g" by blast
  then have d: "distinct (nodes g)" "distinct (map ukey (edges_iter g))"
    by (simp_all add: wf_graph_def)
  have n: "set (nodes g) = (\<Union>line \<in> set g23_lines. {g23_fields line ! 0, g23_fields line ! 1})"
    using P by (simp add: e g23_pair_def)
  have es: "edge_set g = (\<lambda>line. {g23_fields line ! 0, g23_fields line ! 1}) ` set g23_lines"
    using P by (auto simp: e g23_pair_def ukey_def)
  have ar: "\<forall>i < length g23_lines.
           (\<forall>j. i < j \<and> j < length g23_lines
                \<longrightarrow> {g23_fields (g23_lines ! j) ! 0, g23_fields (g23_lines ! j) ! 1}
                     \<noteq> {g23_fields (g23_lines ! i) ! 0, g23_fields (g23_lines ! i) ! 1})
           \<longrightarrow> (\<exists>a. edge_data g (g23_fields (g23_lines ! i) ! 0) (g23_fields (g23_lines ! i) ! 1)
                        = Some a
                    \<and> py_int (last (g23_fields (g23_lines ! i))) = Inr (area a))"
    using P by (simp add: same_pair_ukey ukey_def g23_pair_def)
  from n d es ar show ?thesis by blast
qed

theorem loadNetwork_graph_witness:
  "loadNetwork ex_float ex_div255 ex_g20 ex_vs ex_g23_repeat = Inr topo_R
   \<and> set (nodes topo_R) = {''1_000a'', ''1_001a'', ''2_051a''}
   \<and> distinct (map ukey (edges_iter topo_R))
   \<and> (\<exists>a. edge_data topo_R ''1_001a'' ''1_000a'' = Some a \<and> area a = 7)"
proof -
  note T = loadNetwork_graph [OF loadNetwork_topo_R]
  have len3: "length ex_g23_repeat = 3"
    by (simp add: ex_g23_repeat_def ex_g23_def)
  then have len: "2 < length ex_g23_repeat"
    by simp
  have f: "g23_fields (ex_g23_repeat ! 2) = [''1_001a'', ''1_000a'', ''7'']"
    by code_simp
  have c: "py_int ''7'' = Inr 7"
    by code_simp
  have latest: "\<forall>j. 2 < j \<and> j < length ex_g23_repeat
      \<longrightarrow> {g23_fields (ex_g23_repeat ! j) ! 0, g23_fields (ex_g23_repeat ! j) ! 1}
           \<noteq> {g23_fields (ex_g23_repeat ! 2) ! 0, g23_fields (ex_g23_repeat ! 2) ! 1}"
    unfolding len3 by auto
  from T len latest have
    "\<exists>a. edge_data topo_R (g23_fields (ex_g23_repeat ! 2) ! 0) (g23_fields (ex_g23_repeat ! 2) ! 1)
            = Some a
          \<and> py_int (last (g23_fields (ex_g23_repeat ! 2))) = Inr (area a)"
    by blast
  then have ar: "\<exists>a. edge_data topo_R ''1_001a'' ''1_000a'' = Some a \<and> area a = 7"
    by (simp add: f c)
  have n: "set (nodes topo_R) = {''1_000a'', ''1_001a'', ''2_051a''}"
    by code_simp
  from T have "distinct (map ukey (edges_iter topo_R))"
    by blast
  with loadNetwork_topo_R n ar show ?thesis
    by blast
qed

section \<open>The classification stored on the edges\<close>

lemma py_int_not_digit:
  assumes "\<not> is_digit c"
  shows "py_int [c] = Inl ValueError"
  using assms by (auto simp: py_int_def py_lstrip_def Let_def)

lemma edge_scan_raises:
  assumes "\<exists>i \<in> set is. length t2 \<le> i
              \<or> (t1 ! i \<noteq> t2 ! i \<and> \<not> (is_digit (t1 ! i) \<and> is_digit (t2 ! i)))"
  shows "\<exists>e. edge_scan t1 t2 is st = Inl e"
  using assms
proof (induction "is" arbitrary: st)
  case Nil
  then show ?case by simp
next
  case (Cons i "is")
  show ?case
  proof (cases "length t2 \<le> i")
    case True
    then show ?thesis by simp
  next
    case inrange: False
    show ?thesis
    proof (cases "t1 ! i = t2 ! i")
      case True
      with inrange Cons.prems have "\<exists>i \<in> set is. length t2 \<le> i
              \<or> (t1 ! i \<noteq> t2 ! i \<and> \<not> (is_digit (t1 ! i) \<and> is_digit (t2 ! i)))"
        by auto
      from Cons.IH [OF this, of st] True inrange show ?thesis
        by simp
    next
      case differ: False
      show ?thesis
      proof (cases "is_digit (t1 ! i) \<and> is_digit (t2 ! i)")
        case True
        with inrange differ have step:
          "edge_scan t1 t2 (i # is) st = edge_scan t1 t2 is (scan_step t1 t2 i)"
          by (intro edge_scan_differ) auto
        from True inrange Cons.prems have "\<exists>i \<in> set is. length t2 \<le> i
              \<or> (t1 ! i \<noteq> t2 ! i \<and> \<not> (is_digit (t1 ! i) \<and> is_digit (t2 ! i)))"
          by auto
        from Cons.IH [OF this, of "scan_step t1 t2 i"] step show ?thesis
          by simp
      next
        case False
        then consider "\<not> is_digit (t2 ! i)" | "is_digit (t2 ! i)" "\<not> is_digit (t1 ! i)"
          by blast
        then show ?thesis
        proof cases
          case 1
          with inrange differ show ?thesis
            by (simp add: py_int_not_digit ebind_def)
        next
          case 2
          with inrange differ show ?thesis
            by (simp add: py_int_not_digit py_int_digit ebind_def)
        qed
      qed
    qed
  qed
qed

lemma edge_class_raises:
  assumes "\<not> codes_comparable topoCode1 topoCode2"
  shows "\<exists>e. edge_class topoCode1 topoCode2 = Inl e"
proof -
  let ?n = "length topoCode1 - 1"
  from assms have "\<exists>i \<in> set [0 ..< ?n]. length topoCode2 \<le> i
      \<or> (topoCode1 ! i \<noteq> topoCode2 ! i
          \<and> \<not> (is_digit (topoCode1 ! i) \<and> is_digit (topoCode2 ! i)))"
  proof (cases "?n \<le> length topoCode2")
    case True
    with assms show ?thesis
      by (auto simp: codes_comparable_def)
  next
    case False
    then have "length topoCode2 \<in> set [0 ..< ?n]" by simp
    then show ?thesis by blast
  qed
  then show ?thesis
    unfolding edge_class_def by (rule edge_scan_raises)
qed

lemma edge_class_returns:
  "(\<exists>r. edge_class topoCode1 topoCode2 = Inr r) \<longleftrightarrow> codes_comparable topoCode1 topoCode2"
proof
  assume r: "\<exists>r. edge_class topoCode1 topoCode2 = Inr r"
  show "codes_comparable topoCode1 topoCode2"
  proof (rule ccontr)
    assume "\<not> codes_comparable topoCode1 topoCode2"
    from edge_class_raises [OF this] obtain e where "edge_class topoCode1 topoCode2 = Inl e"
      by blast
    with r show False
      by auto
  qed
next
  assume "codes_comparable topoCode1 topoCode2"
  then have "\<forall>i \<in> set [0 ..< length topoCode1 - 1]. i < length topoCode2
      \<and> (topoCode1 ! i \<noteq> topoCode2 ! i \<longrightarrow> is_digit (topoCode1 ! i) \<and> is_digit (topoCode2 ! i))"
    by (auto simp: codes_comparable_def)
  from edge_scan_total [OF this] show "\<exists>r. edge_class topoCode1 topoCode2 = Inr r"
    by (simp add: edge_class_def)
qed

lemma load_line_class:
  assumes "load_line lp np g line = Inr g'"
  shows "\<exists>a. edge_data g' (fst (g23_pair line)) (snd (g23_pair line)) = Some a
            \<and> edge_class (fst (g23_topo line)) (snd (g23_topo line))
                = Inr (edgeCode a, edgeType a, e_colour a)"
proof -
  let ?data = "g23_fields line"
  from assms have "\<exists>n1 t1 n2 t2 count eCode eType eColour g2.
      py_index ?data 0 = Inr n1 \<and> py_index ?data 1 = Inr n2
      \<and> py_index (py_split (CHR ''_'') n1) 1 = Inr t1
      \<and> py_index (py_split (CHR ''_'') n2) 1 = Inr t2
      \<and> edge_class t1 t2 = Inr (eCode, eType, eColour)
      \<and> g' = add_edge g2 n1 n2 \<lparr>edgeCode = eCode, edgeType = eType,
               e_colour = eColour, area = count, weight = 1\<rparr>"
    by (simp add: load_line_def Let_def ebind_Inr g23_fields_def split: prod.splits) blast
  then obtain n1 t1 n2 t2 count eCode eType eColour g2 where
    n1: "py_index ?data 0 = Inr n1" and n2: "py_index ?data 1 = Inr n2"
    and t1: "py_index (py_split (CHR ''_'') n1) 1 = Inr t1"
    and t2: "py_index (py_split (CHR ''_'') n2) 1 = Inr t2"
    and cls: "edge_class t1 t2 = Inr (eCode, eType, eColour)"
    and g': "g' = add_edge g2 n1 n2 \<lparr>edgeCode = eCode, edgeType = eType,
               e_colour = eColour, area = count, weight = 1\<rparr>"
    by blast
  from n1 n2 have p: "g23_pair line = (n1, n2)"
    by (auto simp: py_index_Inr g23_pair_def)
  from n1 n2 t1 t2 have t: "g23_topo line = (t1, t2)"
    by (auto simp: py_index_Inr g23_topo_def)
  show ?thesis
    unfolding g' p t using cls by (simp add: edge_data_add_edge same_pair_def)
qed

lemma load_lines_class:
  assumes "load_lines lp np ls g = Inr g'" and "wf_graph g"
  shows "\<forall>i < length ls.
           codes_comparable (fst (g23_topo (ls ! i))) (snd (g23_topo (ls ! i)))
           \<and> ((\<forall>j. i < j \<and> j < length ls \<longrightarrow> \<not> same_pair (g23_pair (ls ! j)) (g23_pair (ls ! i)))
              \<longrightarrow> (\<exists>a. edge_data g' (fst (g23_pair (ls ! i))) (snd (g23_pair (ls ! i))) = Some a
                    \<and> edge_class (fst (g23_topo (ls ! i))) (snd (g23_topo (ls ! i)))
                        = Inr (edgeCode a, edgeType a, e_colour a)))"
  using assms
proof (induction ls arbitrary: g)
  case Nil
  then show ?case by simp
next
  case (Cons l ls)
  from Cons.prems(1) obtain g1 where g1: "load_line lp np g l = Inr g1"
    and rest: "load_lines lp np ls g1 = Inr g'"
    by (auto simp: ebind_Inr)
  note L = load_line_post [OF g1 Cons.prems(2)]
  note IH = Cons.IH [OF rest L(1)]
  from load_lines_post [OF rest L(1)]
  have keep: "\<And>u v. (\<forall>line \<in> set ls. \<not> same_pair (g23_pair line) (u, v))
           \<Longrightarrow> edge_data g' u v = edge_data g1 u v"
    by blast
  from load_line_class [OF g1] obtain a where
    a: "edge_data g1 (fst (g23_pair l)) (snd (g23_pair l)) = Some a"
    and c: "edge_class (fst (g23_topo l)) (snd (g23_topo l)) = Inr (edgeCode a, edgeType a, e_colour a)"
    by blast
  from c have ok: "codes_comparable (fst (g23_topo l)) (snd (g23_topo l))"
    using edge_class_returns by blast
  show ?case
  proof (intro allI impI conjI)
    fix i assume "i < length (l # ls)"
    then show "codes_comparable (fst (g23_topo ((l # ls) ! i))) (snd (g23_topo ((l # ls) ! i)))"
      using ok IH by (cases i) auto
  next
    fix i assume i: "i < length (l # ls)"
      and lastp: "\<forall>j. i < j \<and> j < length (l # ls)
                    \<longrightarrow> \<not> same_pair (g23_pair ((l # ls) ! j)) (g23_pair ((l # ls) ! i))"
    show "\<exists>a. edge_data g' (fst (g23_pair ((l # ls) ! i))) (snd (g23_pair ((l # ls) ! i))) = Some a
               \<and> edge_class (fst (g23_topo ((l # ls) ! i))) (snd (g23_topo ((l # ls) ! i)))
                   = Inr (edgeCode a, edgeType a, e_colour a)"
    proof (cases i)
      case 0
      have "\<forall>line \<in> set ls. \<not> same_pair (g23_pair line) (fst (g23_pair l), snd (g23_pair l))"
      proof
        fix line assume "line \<in> set ls"
        then obtain j where "j < length ls" "line = ls ! j"
          by (auto simp: in_set_conv_nth)
        with lastp [rule_format, of "Suc j"] 0 show
          "\<not> same_pair (g23_pair line) (fst (g23_pair l), snd (g23_pair l))"
          by simp
      qed
      from keep [OF this] a c 0 show ?thesis
        by simp
    next
      case (Suc k)
      with i have k: "k < length ls" by simp
      have "\<forall>j. k < j \<and> j < length ls \<longrightarrow> \<not> same_pair (g23_pair (ls ! j)) (g23_pair (ls ! k))"
      proof (intro allI impI)
        fix j assume "k < j \<and> j < length ls"
        with lastp [rule_format, of "Suc j"] Suc show
          "\<not> same_pair (g23_pair (ls ! j)) (g23_pair (ls ! k))"
          by simp
      qed
      with IH k Suc show ?thesis
        by simp
    qed
  qed
qed

lemma loadNetwork_line_class:
  assumes "loadNetwork float div255 g20_lines vs_lines g23_lines = Inr g"
    and "i < length g23_lines"
  shows "codes_comparable (fst (g23_topo (g23_lines ! i))) (snd (g23_topo (g23_lines ! i)))"
    and "\<forall>j. i < j \<and> j < length g23_lines
              \<longrightarrow> \<not> same_pair (g23_pair (g23_lines ! j)) (g23_pair (g23_lines ! i))
         \<Longrightarrow> \<exists>a. edge_data g (fst (g23_pair (g23_lines ! i))) (snd (g23_pair (g23_lines ! i)))
                    = Some a
                \<and> edge_class (fst (g23_topo (g23_lines ! i))) (snd (g23_topo (g23_lines ! i)))
                    = Inr (edgeCode a, edgeType a, e_colour a)"
proof -
  from assms(1) obtain lp np where "load_lines lp np g23_lines empty_graph = Inr g"
    by (auto simp: loadNetwork_def ebind_Inr)
  note C = load_lines_class [OF this wf_empty_graph, rule_format, OF assms(2)]
  from C show "codes_comparable (fst (g23_topo (g23_lines ! i))) (snd (g23_topo (g23_lines ! i)))"
    by blast
  from C show "\<exists>a. edge_data g (fst (g23_pair (g23_lines ! i))) (snd (g23_pair (g23_lines ! i)))
                    = Some a
                \<and> edge_class (fst (g23_topo (g23_lines ! i))) (snd (g23_topo (g23_lines ! i)))
                    = Inr (edgeCode a, edgeType a, e_colour a)"
    if "\<forall>j. i < j \<and> j < length g23_lines
              \<longrightarrow> \<not> same_pair (g23_pair (g23_lines ! j)) (g23_pair (g23_lines ! i))"
    using that by blast
qed

text \<open>
  \<^bold>\<open>C1\<close>, as the code has it.  For every line of the edge-list file, the two topology
  codes are the second pieces, between underscores, of the node identifiers in the
  first two fields.  They are compared position by position over the first code
  without its final character.  When the second code does not reach that far, or two
  characters that differ are not both digits, \<^verbatim>\<open>loadNetwork\<close> raises.  When \<^verbatim>\<open>loadNetwork\<close>
  returns and no later line has the same pair of nodes, the edge of the line carries the
  classification of the line: without a difference the code \<open>0\<close>, the type
  \<^verbatim>\<open>stratigraphic\<close> and the colour \<^verbatim>\<open>k\<close>; otherwise the loop has run to its end and the
  \<^bold>\<open>last\<close> position \<open>j\<close> where the characters differ decides: the code is the character
  with the larger digit, and the larger digit \<open>d\<close> gives the type, \<open>0\<close> stratigraphic,
  \<open>2\<close>, \<open>7\<close> and \<open>8\<close> fault, \<open>3\<close> unconformity, \<open>5\<close> intrusive and anything else unknown.
\<close>

theorem loadNetwork_edge_class:
  assumes i: "i < length g23_lines"
    and n1: "n1 = g23_fields (g23_lines ! i) ! 0" and n2: "n2 = g23_fields (g23_lines ! i) ! 1"
    and t1: "topoCode1 = py_split (CHR ''_'') n1 ! 1"
    and t2: "topoCode2 = py_split (CHR ''_'') n2 ! 1"
  shows "(\<not> (length topoCode1 - 1 \<le> length topoCode2
             \<and> (\<forall>k < length topoCode1 - 1. topoCode1 ! k \<noteq> topoCode2 ! k
                   \<longrightarrow> is_digit (topoCode1 ! k) \<and> is_digit (topoCode2 ! k)))
          \<longrightarrow> (\<exists>e. loadNetwork float div255 g20_lines vs_lines g23_lines = Inl e))
       \<and> (loadNetwork float div255 g20_lines vs_lines g23_lines = Inr g
            \<and> (\<forall>j. i < j \<and> j < length g23_lines
                  \<longrightarrow> {g23_fields (g23_lines ! j) ! 0, g23_fields (g23_lines ! j) ! 1} \<noteq> {n1, n2})
          \<longrightarrow> (\<exists>a. edge_data g n1 n2 = Some a
                 \<and> ((\<forall>k < length topoCode1 - 1. topoCode1 ! k = topoCode2 ! k)
                      \<longrightarrow> edgeCode a = CodeInt 0 \<and> edgeType a = stratigraphic
                          \<and> e_colour a = ''k'')
                 \<and> (\<forall>j. j < length topoCode1 - 1 \<and> topoCode1 ! j \<noteq> topoCode2 ! j
                          \<and> (\<forall>k. j < k \<and> k < length topoCode1 - 1
                                 \<longrightarrow> topoCode1 ! k = topoCode2 ! k)
                      \<longrightarrow> (let d1 = the (digit_of (topoCode1 ! j));
                               d2 = the (digit_of (topoCode2 ! j)); d = max d1 d2
                           in edgeCode a = CodeChr (if d2 > d1 then topoCode2 ! j else topoCode1 ! j)
                              \<and> edgeType a =
                                  (if d = 0 then stratigraphic
                                   else if d = 2 \<or> d = 7 \<or> d = 8 then fault
                                   else if d = 3 then unconformity
                                   else if d = 5 then intrusive
                                   else unknown)
                              \<and> e_colour a =
                                  (if d = 0 then ''k''
                                   else if d = 2 \<or> d = 7 \<or> d = 8 then ''r''
                                   else if d = 3 then ''b''
                                   else if d = 5 then ''y''
                                   else ''g'')))))"
proof (intro conjI impI)
  assume bad: "\<not> (length topoCode1 - 1 \<le> length topoCode2
             \<and> (\<forall>k < length topoCode1 - 1. topoCode1 ! k \<noteq> topoCode2 ! k
                   \<longrightarrow> is_digit (topoCode1 ! k) \<and> is_digit (topoCode2 ! k)))"
  have topo: "g23_topo (g23_lines ! i) = (topoCode1, topoCode2)"
    by (simp add: g23_topo_def n1 n2 t1 t2)
  show "\<exists>e. loadNetwork float div255 g20_lines vs_lines g23_lines = Inl e"
  proof (cases "loadNetwork float div255 g20_lines vs_lines g23_lines")
    case (Inl e)
    then show ?thesis by blast
  next
    case (Inr g')
    from loadNetwork_line_class(1) [OF this i] bad show ?thesis
      by (simp add: codes_comparable_def topo)
  qed
next
  assume run: "loadNetwork float div255 g20_lines vs_lines g23_lines = Inr g
            \<and> (\<forall>j. i < j \<and> j < length g23_lines
                  \<longrightarrow> {g23_fields (g23_lines ! j) ! 0, g23_fields (g23_lines ! j) ! 1} \<noteq> {n1, n2})"
  have topo: "g23_topo (g23_lines ! i) = (topoCode1, topoCode2)"
    and pair: "g23_pair (g23_lines ! i) = (n1, n2)"
    by (simp_all add: g23_topo_def g23_pair_def n1 n2 t1 t2)
  from run have load: "loadNetwork float div255 g20_lines vs_lines g23_lines = Inr g"
    by blast
  from run have latest: "\<forall>j. i < j \<and> j < length g23_lines
              \<longrightarrow> \<not> same_pair (g23_pair (g23_lines ! j)) (g23_pair (g23_lines ! i))"
    by (simp add: same_pair_ukey ukey_def g23_pair_def n1 n2)
  from loadNetwork_line_class(1) [OF load i]
  have ok: "codes_comparable topoCode1 topoCode2"
    by (simp add: topo)
  from loadNetwork_line_class(2) [OF load i latest] obtain a where
    a: "edge_data g n1 n2 = Some a"
    and c: "edge_class topoCode1 topoCode2 = Inr (edgeCode a, edgeType a, e_colour a)"
    by (auto simp: topo pair)
  from ok have len: "length topoCode1 - 1 \<le> length topoCode2"
    and dig: "\<forall>k < length topoCode1 - 1. topoCode1 ! k \<noteq> topoCode2 ! k
                 \<longrightarrow> is_digit (topoCode1 ! k) \<and> is_digit (topoCode2 ! k)"
    by (simp_all add: codes_comparable_def)
  have same: "edgeCode a = CodeInt 0 \<and> edgeType a = stratigraphic \<and> e_colour a = ''k''"
    if "\<forall>k < length topoCode1 - 1. topoCode1 ! k = topoCode2 ! k"
    using edge_class_last_difference [OF len dig, of 0] that c by simp
  have diff: "let d1 = the (digit_of (topoCode1 ! j));
                  d2 = the (digit_of (topoCode2 ! j)); d = max d1 d2
              in edgeCode a = CodeChr (if d2 > d1 then topoCode2 ! j else topoCode1 ! j)
                 \<and> edgeType a =
                     (if d = 0 then stratigraphic
                      else if d = 2 \<or> d = 7 \<or> d = 8 then fault
                      else if d = 3 then unconformity
                      else if d = 5 then intrusive
                      else unknown)
                 \<and> e_colour a =
                     (if d = 0 then ''k''
                      else if d = 2 \<or> d = 7 \<or> d = 8 then ''r''
                      else if d = 3 then ''b''
                      else if d = 5 then ''y''
                      else ''g'')"
    if "j < length topoCode1 - 1 \<and> topoCode1 ! j \<noteq> topoCode2 ! j
          \<and> (\<forall>k. j < k \<and> k < length topoCode1 - 1 \<longrightarrow> topoCode1 ! k = topoCode2 ! k)" for j
    using edge_class_last_difference [OF len dig, of j] that c
    by (simp add: Let_def)
  from a same diff show "\<exists>a. edge_data g n1 n2 = Some a
                 \<and> ((\<forall>k < length topoCode1 - 1. topoCode1 ! k = topoCode2 ! k)
                      \<longrightarrow> edgeCode a = CodeInt 0 \<and> edgeType a = stratigraphic
                          \<and> e_colour a = ''k'')
                 \<and> (\<forall>j. j < length topoCode1 - 1 \<and> topoCode1 ! j \<noteq> topoCode2 ! j
                          \<and> (\<forall>k. j < k \<and> k < length topoCode1 - 1
                                 \<longrightarrow> topoCode1 ! k = topoCode2 ! k)
                      \<longrightarrow> (let d1 = the (digit_of (topoCode1 ! j));
                               d2 = the (digit_of (topoCode2 ! j)); d = max d1 d2
                           in edgeCode a = CodeChr (if d2 > d1 then topoCode2 ! j else topoCode1 ! j)
                              \<and> edgeType a =
                                  (if d = 0 then stratigraphic
                                   else if d = 2 \<or> d = 7 \<or> d = 8 then fault
                                   else if d = 3 then unconformity
                                   else if d = 5 then intrusive
                                   else unknown)
                              \<and> e_colour a =
                                  (if d = 0 then ''k''
                                   else if d = 2 \<or> d = 7 \<or> d = 8 then ''r''
                                   else if d = 3 then ''b''
                                   else if d = 5 then ''y''
                                   else ''g'')))"
    by blast
qed

theorem loadNetwork_edge_class_witness:
  "loadNetwork ex_float ex_div255 ex_g20 ex_vs_multi ex_g23_multi = Inr topo_M
   \<and> (\<exists>a. edge_data topo_M ''1_23a'' ''1_35a'' = Some a
          \<and> edgeCode a = CodeChr CHR ''5'' \<and> edgeType a = intrusive \<and> e_colour a = ''y'')
   \<and> (\<exists>e. loadNetwork ex_float ex_div255 ex_g20 ex_vs_multi ex_g23_short = Inl e)"
proof -
  have i: "(0::nat) < length ex_g23_multi" and i': "(0::nat) < length ex_g23_short"
    by (simp_all add: ex_g23_multi_def ex_g23_short_def)
  have f: "g23_fields (ex_g23_multi ! 0) = [''1_23a'', ''1_35a'', ''3'']"
    and f': "g23_fields (ex_g23_short ! 0) = [''1_23a'', ''1_3'', ''3'']"
    by code_simp+
  have n1: "''1_23a'' = g23_fields (ex_g23_multi ! 0) ! 0"
    and n2: "''1_35a'' = g23_fields (ex_g23_multi ! 0) ! 1"
    and n1': "''1_23a'' = g23_fields (ex_g23_short ! 0) ! 0"
    and n2': "''1_3'' = g23_fields (ex_g23_short ! 0) ! 1"
    by (simp_all add: f f')
  have t1: "''23a'' = py_split (CHR ''_'') ''1_23a'' ! 1"
    and t2: "''35a'' = py_split (CHR ''_'') ''1_35a'' ! 1"
    and t2': "''3'' = py_split (CHR ''_'') ''1_3'' ! 1"
    by code_simp+
  have latest: "\<forall>j. 0 < j \<and> j < length ex_g23_multi
      \<longrightarrow> {g23_fields (ex_g23_multi ! j) ! 0, g23_fields (ex_g23_multi ! j) ! 1}
           \<noteq> {''1_23a'', ''1_35a''}"
    by (simp add: ex_g23_multi_def)
  have j: "(1::nat) < length ''23a'' - 1 \<and> ''23a'' ! 1 \<noteq> ''35a'' ! 1
      \<and> (\<forall>k. 1 < k \<and> k < length ''23a'' - 1 \<longrightarrow> ''23a'' ! k = ''35a'' ! k)"
    by auto
  from loadNetwork_edge_class [OF i n1 n2 t1 t2, of ex_float ex_div255 ex_g20 ex_vs_multi topo_M]
    loadNetwork_topo_M latest
  obtain a where a: "edge_data topo_M ''1_23a'' ''1_35a'' = Some a"
    and d: "\<forall>j. j < length ''23a'' - 1 \<and> ''23a'' ! j \<noteq> ''35a'' ! j
                \<and> (\<forall>k. j < k \<and> k < length ''23a'' - 1 \<longrightarrow> ''23a'' ! k = ''35a'' ! k)
             \<longrightarrow> (let d1 = the (digit_of (''23a'' ! j));
                      d2 = the (digit_of (''35a'' ! j)); d = max d1 d2
                  in edgeCode a = CodeChr (if d2 > d1 then ''35a'' ! j else ''23a'' ! j)
                     \<and> edgeType a =
                         (if d = 0 then stratigraphic
                          else if d = 2 \<or> d = 7 \<or> d = 8 then fault
                          else if d = 3 then unconformity
                          else if d = 5 then intrusive
                          else unknown)
                     \<and> e_colour a =
                         (if d = 0 then ''k''
                          else if d = 2 \<or> d = 7 \<or> d = 8 then ''r''
                          else if d = 3 then ''b''
                          else if d = 5 then ''y''
                          else ''g''))"
    by blast
  from d [rule_format, OF j]
  have v: "edgeCode a = CodeChr CHR ''5'' \<and> edgeType a = intrusive \<and> e_colour a = ''y''"
    by (simp add: digit_of_def Let_def)
  have short: "\<not> (length ''23a'' - 1 \<le> length ''3''
             \<and> (\<forall>k < length ''23a'' - 1. ''23a'' ! k \<noteq> ''3'' ! k
                   \<longrightarrow> is_digit (''23a'' ! k) \<and> is_digit (''3'' ! k)))"
    by simp
  from loadNetwork_edge_class [OF i' n1' n2' t1 t2', of ex_float ex_div255 ex_g20 ex_vs_multi] short
  have r: "\<exists>e. loadNetwork ex_float ex_div255 ex_g20 ex_vs_multi ex_g23_short = Inl e"
    by blast
  from loadNetwork_topo_M a v r show ?thesis
    by blast
qed

text \<open>The first difference does not decide: on the line with the codes \<^verbatim>\<open>23a\<close> and
  \<^verbatim>\<open>35a\<close> the first difference gives the digit \<open>3\<close>, and the edge is classified by the
  second difference.\<close>

theorem loadNetwork_not_first_difference:
  "g23_topo (ex_g23_multi ! 0) = (''23a'', ''35a'')
   \<and> spec_edge_digit ''23a'' ''35a'' = 3
   \<and> loadNetwork ex_float ex_div255 ex_g20 ex_vs_multi ex_g23_multi = Inr topo_M
   \<and> map_option edgeCode (edge_data topo_M ''1_23a'' ''1_35a'') = Some (CodeChr CHR ''5'')
   \<and> map_option edgeType (edge_data topo_M ''1_23a'' ''1_35a'') = Some intrusive"
  by code_simp

end
